(* ===== verification/GH_Prelude.thy ===== *)
theory GH_Prelude
  imports Main "HOL-Library.Sublist"
begin

text \<open>
  Shared material of the ghspa development: the names of the model's types, the
  collections of facts the component theories add to, and the generic facts on
  lists, prefixes and contiguous sublists (substrings) that the string proofs of
  every component rest on.  Nothing here depends on the program.

  Strings.  A JavaScript string is a sequence of UTF-16 code units.  Every
  property of \<open>window.location\<close> is an ASCII string (the URL serialiser
  percent-encodes everything else), and every literal of \<open>src/ghspa.js\<close> is
  ASCII, so the model's \<open>string\<close> (a list of 8-bit characters) has one
  element per code unit.  The primitives of theory \<open>JS_String\<close> are stated
  over \<open>'a list\<close> and hold for any alphabet.
\<close>

type_synonym js_string = string

named_theorems gh_defs
  "definitions of the model of src/ghspa.js, for unfolding a whole operation"
named_theorems gh_eval
  "equations that evaluate the library's predicates on closed strings"

declare sublist_code(3) [gh_eval]

section \<open>Prefixes\<close>

lemma prefix_append_short:
  "prefix p (xs @ ys) \<Longrightarrow> length p \<le> length xs \<Longrightarrow> prefix p xs"
  by (auto simp: prefix_append)

lemma prefix_append_drop [simp]:
  "prefix p s \<Longrightarrow> p @ drop (length p) s = s"
  by (auto simp: prefix_def)

lemma prefix_Cons_iff:
  "prefix (c # p) s \<longleftrightarrow> (\<exists>t. s = c # t \<and> prefix p t)"
  by (cases s) auto

lemma prefix_same_head:
  "prefix (c # p) (x # xs) \<Longrightarrow> x = c"
  by simp

section \<open>Contiguous sublists\<close>

lemma not_sublist_ConsD:
  "\<not> sublist p (x # xs) \<Longrightarrow> \<not> sublist p xs"
  by (simp add: sublist_Cons_right)

lemma not_sublist_not_prefix:
  "\<not> sublist p s \<Longrightarrow> \<not> prefix p s"
  by (auto dest: prefix_imp_sublist)

lemma not_sublist_appendD:
  "\<not> sublist p (xs @ ys) \<Longrightarrow> \<not> sublist p xs \<and> \<not> sublist p ys"
  by (auto simp: sublist_append)

lemma not_sublist_drop:
  "\<not> sublist p s \<Longrightarrow> \<not> sublist p (drop n s)"
  by (metis append_take_drop_id not_sublist_appendD)

lemma sublist_singleton [simp]:
  "sublist [c] s \<longleftrightarrow> c \<in> set s"
  by (induction s) (auto simp: sublist_Cons_right)

lemma sublist_member:
  "sublist p s \<Longrightarrow> c \<in> set p \<Longrightarrow> c \<in> set s"
  by (auto dest: set_mono_sublist)

section \<open>Scanning up to a separator\<close>

lemma takeWhile_append_sep:
  "c \<notin> set a \<Longrightarrow> takeWhile (\<lambda>x. x \<noteq> c) (a @ c # b) = a"
  by (induction a) auto

lemma dropWhile_append_sep:
  "c \<notin> set a \<Longrightarrow> dropWhile (\<lambda>x. x \<noteq> c) (a @ c # b) = c # b"
  by (induction a) auto

lemma takeWhile_stop:
  "\<forall>x \<in> set a. P x \<Longrightarrow> b = [] \<or> \<not> P (hd b) \<Longrightarrow> takeWhile P (a @ b) = a"
  by (cases b) (simp_all add: takeWhile_append2 takeWhile_eq_all_conv)

lemma dropWhile_stop:
  "\<forall>x \<in> set a. P x \<Longrightarrow> b = [] \<or> \<not> P (hd b) \<Longrightarrow> dropWhile P (a @ b) = b"
  by (cases b) (simp_all add: dropWhile_append2)

lemma dropWhile_append_mark:
  "b = [] \<or> \<not> P (hd b) \<Longrightarrow> dropWhile P (a @ b) = dropWhile P a @ b"
  by (induction a) (cases b; simp)+

lemma append_eq_at_mark:
  assumes eq: "a @ b = c @ d"
    and "x \<notin> set a" "x \<notin> set c"
    and "b = [] \<or> hd b = x" "d = [] \<or> hd d = x"
  shows "a = c \<and> b = d"
proof -
  have "takeWhile (\<lambda>y. y \<noteq> x) (a @ b) = a" "takeWhile (\<lambda>y. y \<noteq> x) (c @ d) = c"
    using assms(2-) by (auto intro!: takeWhile_stop)
  with eq have "a = c" by simp
  with eq show ?thesis by simp
qed

lemma takeWhile_notin [simp]:
  "c \<notin> set (takeWhile (\<lambda>x. x \<noteq> c) s)"
  by (induction s) auto

lemma concat_map_unless:
  "c \<notin> set s \<Longrightarrow> concat (map (\<lambda>x. if x = c then r else [x]) s) = s"
  by (induction s) auto

end
