(* ===== verification/JS_String.thy ===== *)
theory JS_String
  imports GH_Prelude
begin

text \<open>
  The ECMAScript string and array built-ins that \<open>src/ghspa.js\<close> calls, each
  as one executable function, with the facts the program's proofs need.

  \<^item> \<open>split_chr c s\<close> is \<open>s.split(c)\<close> for a separator of one code unit
    (\<open>'/'\<close>, \<open>'&'\<close>, \<open>'='\<close> in the source): the pieces between the
    separators, never an empty array (\<open>''.split('/')\<close> is \<open>['']\<close>).
  \<^item> \<open>join sep xs\<close> is \<open>xs.join(sep)\<close>.
  \<^item> \<open>replace_first pat rep s\<close> is \<open>s.replace(pat, rep)\<close> with a string
    pattern: the leftmost occurrence only; an empty pattern matches at
    position 0.  The replacement is taken literally, which is what ECMAScript
    does for a replacement without \<open>$\<close> (the source passes \<open>''\<close>).
  \<^item> \<open>replace_all pat rep s\<close> is \<open>s.replace(/pat/g, rep)\<close> for a regular
    expression that is a literal (\<open>/&/g\<close> and \<open>/~and~/g\<close> in the source):
    the matches are found left to right and do not overlap.  An empty pattern
    matches before every code unit and at the end.
  \<^item> \<open>js_slice n s\<close> is \<open>s.slice(n)\<close> on a string or an array, for a
    start index that is not negative (the source passes 1): everything from
    index \<open>n\<close> on, the empty result when there is nothing there.
  \<^item> \<open>for_each f xs s\<close> is \<open>xs.forEach(f)\<close> for a callback that works on
    a variable of its scope: the callback is applied to the elements in the
    order of their indices, and each call sees the state the call before left;
    \<open>s\<close> is the state before the loop, the result the state after it.
  \<^item> The truth value of a string \<open>s\<close> in a condition is \<open>s \<noteq> []\<close>.
\<close>

section \<open>Definitions\<close>

fun cons_hd :: "'a \<Rightarrow> 'a list list \<Rightarrow> 'a list list" where
  "cons_hd x [] = [[x]]"
| "cons_hd x (y # ys) = (x # y) # ys"

fun split_chr :: "'a \<Rightarrow> 'a list \<Rightarrow> 'a list list" where
  "split_chr c [] = [[]]"
| "split_chr c (x # xs) =
     (if x = c then [] # split_chr c xs else cons_hd x (split_chr c xs))"

fun join :: "'a list \<Rightarrow> 'a list list \<Rightarrow> 'a list" where
  "join sep [] = []"
| "join sep [x] = x"
| "join sep (x # y # ys) = x @ sep @ join sep (y # ys)"

fun replace_first :: "'a list \<Rightarrow> 'a list \<Rightarrow> 'a list \<Rightarrow> 'a list" where
  "replace_first pat rep [] = (if pat = [] then rep else [])"
| "replace_first pat rep (x # xs) =
     (if prefix pat (x # xs) then rep @ drop (length pat) (x # xs)
      else x # replace_first pat rep xs)"

fun replace_all :: "'a list \<Rightarrow> 'a list \<Rightarrow> 'a list \<Rightarrow> 'a list" where
  "replace_all pat rep s =
     (if pat = [] then rep @ concat (map (\<lambda>c. c # rep) s)
      else if s = [] then []
      else if prefix pat s then rep @ replace_all pat rep (drop (length pat) s)
      else hd s # replace_all pat rep (tl s))"

declare replace_all.simps [simp del]

definition js_slice :: "nat \<Rightarrow> 'a list \<Rightarrow> 'a list" where
  "js_slice start xs = drop start xs"

declare js_slice_def [simp]

primrec for_each :: "('s \<Rightarrow> 'a \<Rightarrow> 's) \<Rightarrow> 'a list \<Rightarrow> 's \<Rightarrow> 's" where
  "for_each f [] s = s"
| "for_each f (x # xs) s = for_each f xs (f s x)"

section \<open>split and join\<close>

text \<open>
  \<open>cons_hd x r\<close> puts a code unit in front of the first piece.  Its argument
  is never empty in \<open>split_chr\<close>; these are its equations on such an
  argument.
\<close>

lemma cons_hd_neq_Nil [simp]: "cons_hd x r \<noteq> []"
  by (cases r) simp_all

lemma cons_hd_sel [simp]:
  "r \<noteq> [] \<Longrightarrow> hd (cons_hd x r) = x # hd r"
  "r \<noteq> [] \<Longrightarrow> tl (cons_hd x r) = tl r"
  "r \<noteq> [] \<Longrightarrow> length (cons_hd x r) = length r"
  by (cases r; simp)+

lemma set_cons_hd: "r \<noteq> [] \<Longrightarrow> set (cons_hd x r) = insert (x # hd r) (set (tl r))"
  by (cases r) simp_all

lemma split_chr_neq_Nil [simp]: "split_chr c s \<noteq> []"
  by (induction s) auto

lemma join_Cons: "ys \<noteq> [] \<Longrightarrow> join sep (x # ys) = x @ sep @ join sep ys"
  by (cases ys) simp_all

lemma join_Cons_Cons: "join sep ((a # x) # xs) = a # join sep (x # xs)"
  by (cases xs) simp_all

lemma join_cons_hd [simp]: "r \<noteq> [] \<Longrightarrow> join sep (cons_hd x r) = x # join sep r"
  by (cases r) (simp_all add: join_Cons_Cons)

lemma join_split_chr [simp]: "join [c] (split_chr c s) = s"
  by (induction s) (auto simp: join_Cons)

lemma hd_split_chr: "hd (split_chr c s) = takeWhile (\<lambda>x. x \<noteq> c) s"
  by (induction s) auto

lemma join_tl_split_chr:
  "join [c] (tl (split_chr c s)) = tl (dropWhile (\<lambda>x. x \<noteq> c) s)"
  by (induction s) auto

lemma split_chr_no_sep: "c \<notin> set s \<Longrightarrow> split_chr c s = [s]"
  by (induction s) auto

lemma split_chr_append_sep:
  "c \<notin> set a \<Longrightarrow> split_chr c (a @ c # b) = a # split_chr c b"
  by (induction a) auto

lemma set_split_chr: "x \<in> set (split_chr c s) \<Longrightarrow> set x \<subseteq> set s"
proof (induction s arbitrary: x)
  case (Cons a s)
  then show ?case
    by (cases "split_chr c s") (fastforce split: if_splits)+
qed simp

lemma split_chr_pieces: "x \<in> set (split_chr c s) \<Longrightarrow> c \<notin> set x"
proof (induction s arbitrary: x)
  case (Cons a s)
  have "hd (split_chr c s) \<in> set (split_chr c s)"
    by (rule hd_in_set) simp
  with Cons show ?case
    by (auto simp: set_cons_hd split: if_splits dest: list.set_sel(2)[rotated])
qed simp

text \<open>
  \<open>s.split(c)\<close> has one piece more than \<open>s\<close> has
  separators; in particular it is never empty, so element 0 of the result is
  always a string.
\<close>

lemma split_chr_length: "length (split_chr c s) = Suc (count_list s c)"
  by (induction s) auto

text \<open>
  Joining pieces that hold no separator and splitting the result gives the
  pieces back: \<open>xs.join(c).split(c)\<close> is \<open>xs\<close> for a non-empty array
  \<open>xs\<close>.  (The other direction, \<open>join_split_chr\<close>, holds for every
  string.)
\<close>

lemma split_chr_join:
  assumes "xs \<noteq> []" and "\<forall>x \<in> set xs. c \<notin> set x"
  shows "split_chr c (join [c] xs) = xs"
  using assms
proof (induction "[c]" xs rule: join.induct)
  case (3 x y ys)
  then show ?case by (simp add: split_chr_append_sep)
qed (simp_all add: split_chr_no_sep)

section \<open>forEach\<close>

text \<open>
  The loop is a left fold, and a loop over two arrays in a row is the two
  loops in a row.
\<close>

lemma for_each_foldl: "for_each f xs s = foldl f s xs"
  by (induction xs arbitrary: s) simp_all

lemma for_each_append [simp]: "for_each f (xs @ ys) s = for_each f ys (for_each f xs s)"
  by (induction xs arbitrary: s) simp_all

section \<open>replace with a string pattern\<close>

lemma replace_first_prefix:
  "prefix pat s \<Longrightarrow> replace_first pat rep s = rep @ drop (length pat) s"
  by (cases s) auto

lemma replace_first_absent:
  "\<not> sublist pat s \<Longrightarrow> replace_first pat rep s = s"
  by (induction s) (auto simp: sublist_Cons_right)

lemma replace_first_empty_pattern [simp]: "replace_first [] rep s = rep @ s"
  by (cases s) simp_all

lemma set_replace_first: "set (replace_first pat rep s) \<subseteq> set s \<union> set rep"
  by (induction s) (auto dest: in_set_dropD)

lemma replace_first_notin:
  "c \<notin> set s \<Longrightarrow> c \<notin> set rep \<Longrightarrow> c \<notin> set (replace_first pat rep s)"
  using set_replace_first[of pat rep s] by auto

text \<open>
  \<open>replace\<close> with a string pattern replaces the leftmost
  occurrence and nothing else: in \<open>u @ pat @ v\<close>, where \<open>pat\<close> does not
  occur at a position before \<open>length u\<close>, exactly that occurrence is
  replaced, whatever \<open>v\<close> holds.
\<close>

lemma replace_first_leftmost:
  assumes "pat \<noteq> []" and "\<not> sublist pat (u @ butlast pat)"
  shows "replace_first pat rep (u @ pat @ v) = u @ rep @ v"
  using assms(2)
proof (induction u)
  case Nil
  then show ?case by (simp add: replace_first_prefix)
next
  case (Cons a u)
  have "\<not> prefix pat (a # u @ pat @ v)"
  proof
    assume "prefix pat (a # u @ pat @ v)"
    moreover have "pat @ v = butlast pat @ last pat # v"
      using assms(1) by simp
    ultimately have "prefix pat ((a # u @ butlast pat) @ last pat # v)"
      by simp
    then have "prefix pat (a # u @ butlast pat)"
      by (rule prefix_append_short) simp
    with Cons.prems show False by (simp add: sublist_Cons_right)
  qed
  with Cons show ?case by (simp add: sublist_Cons_right)
qed

section \<open>replace with a global literal pattern\<close>

lemma replace_all_Nil [simp]: "pat \<noteq> [] \<Longrightarrow> replace_all pat rep [] = []"
  by (simp add: replace_all.simps)

lemma replace_all_match:
  "pat \<noteq> [] \<Longrightarrow> prefix pat s \<Longrightarrow>
   replace_all pat rep s = rep @ replace_all pat rep (drop (length pat) s)"
  by (subst replace_all.simps) auto

lemma replace_all_skip:
  "pat \<noteq> [] \<Longrightarrow> \<not> prefix pat (x # xs) \<Longrightarrow>
   replace_all pat rep (x # xs) = x # replace_all pat rep xs"
  by (subst replace_all.simps) auto

lemma replace_all_append_match:
  "pat \<noteq> [] \<Longrightarrow> replace_all pat rep (pat @ s) = rep @ replace_all pat rep s"
  by (simp add: replace_all_match)

lemma replace_all_single:
  "replace_all [c] rep s = concat (map (\<lambda>x. if x = c then rep else [x]) s)"
  by (induction s) (auto simp: replace_all_match replace_all_skip)

lemma replace_all_absent:
  "pat \<noteq> [] \<Longrightarrow> \<not> sublist pat s \<Longrightarrow> replace_all pat rep s = s"
  by (induction s) (auto simp: sublist_Cons_right replace_all_skip)

end
