(* ===== verification/Location.thy ===== *)
theory Location
  imports JS_String
begin

text \<open>
  The object \<open>window.location\<close> that \<open>src/ghspa.js\<close> receives as \<open>l\<close>:
  the six string properties it reads, as a record, and the shape a browser
  guarantees for them.

  \<^item> \<open>protocol\<close> ends with its colon (\<open>https:\<close>); \<open>hostname\<close> has no port;
    \<open>port\<close> is a string of digits, empty for the scheme's default port
    (\<open>default_port\<close>).
  \<^item> \<open>pathname\<close> starts with \<open>/\<close> and holds neither \<open>?\<close> nor \<open>#\<close>.
  \<^item> \<open>search\<close> is empty when the URL has no query or an empty one, and
    otherwise starts with \<open>?\<close> and holds no \<open>#\<close>.
  \<^item> \<open>hash\<close> is empty when the URL has no fragment or an empty one, and
    otherwise starts with \<open>#\<close>.

  \<open>wf_route\<close> states the last three items, \<open>wf_origin\<close> the first, and
  \<open>wf_location\<close> both.  \<open>origin\<close> is the text the source assembles from
  \<open>protocol\<close>, \<open>hostname\<close> and \<open>port\<close>, and \<open>href\<close> the serialisation
  of the whole location, which extends it.
\<close>

section \<open>Definitions\<close>

record location =
  protocol :: string
  hostname :: string
  port :: string
  pathname :: string
  search :: string
  hash :: string

definition port_suffix :: "location \<Rightarrow> string" where
  "port_suffix l = (if port l \<noteq> [] then '':'' @ port l else [])"

declare port_suffix_def [simp]

definition origin :: "location \<Rightarrow> string" where
  "origin l = protocol l @ ''//'' @ hostname l @ port_suffix l"

definition href :: "location \<Rightarrow> string" where
  "href l = origin l @ pathname l @ search l @ hash l"

definition wf_route :: "location \<Rightarrow> bool" where
  "wf_route l \<longleftrightarrow>
     prefix ''/'' (pathname l) \<and>
     CHR ''?'' \<notin> set (pathname l) \<and> CHR ''#'' \<notin> set (pathname l) \<and>
     (search l = [] \<or> prefix ''?'' (search l) \<and> 2 \<le> length (search l)) \<and>
     CHR ''#'' \<notin> set (search l) \<and>
     (hash l = [] \<or> prefix ''#'' (hash l) \<and> 2 \<le> length (hash l))"

definition authority_char :: "char \<Rightarrow> bool" where
  "authority_char c \<longleftrightarrow> c \<notin> set ''/?#:''"

definition digit_char :: "char \<Rightarrow> bool" where
  "digit_char c \<longleftrightarrow> c \<in> set ''0123456789''"

definition default_port :: "string \<Rightarrow> string" where
  "default_port scheme =
     (if scheme = ''http'' \<or> scheme = ''ws'' then ''80''
      else if scheme = ''https'' \<or> scheme = ''wss'' then ''443''
      else if scheme = ''ftp'' then ''21''
      else [])"

definition wf_origin :: "location \<Rightarrow> bool" where
  "wf_origin l \<longleftrightarrow>
     protocol l \<noteq> [] \<and> last (protocol l) = CHR '':'' \<and>
     butlast (protocol l) \<noteq> [] \<and> list_all authority_char (butlast (protocol l)) \<and>
     hostname l \<noteq> [] \<and> list_all authority_char (hostname l) \<and>
     list_all digit_char (port l) \<and>
     (port l = [] \<or> port l \<noteq> default_port (butlast (protocol l)))"

definition wf_location :: "location \<Rightarrow> bool" where
  "wf_location l \<longleftrightarrow> wf_origin l \<and> wf_route l"

text \<open>
  The request of the specification's scenario, and a request whose path and
  query hold ampersands; the examples of the development use them.
\<close>

abbreviation scenario :: location where
  "scenario \<equiv>
     \<lparr>protocol = ''https:'', hostname = ''user.github.io'', port = [],
      pathname = ''/my-repo/docs/intro'', search = ''?x=1'', hash = ''#top''\<rparr>"

abbreviation amp_request :: location where
  "amp_request \<equiv>
     \<lparr>protocol = ''https:'', hostname = ''user.github.io'', port = [],
      pathname = ''/my-repo/a&b'', search = ''?x=1&y=2'', hash = ''#s2''\<rparr>"

section \<open>Shape of a well-formed location\<close>

lemma wf_route_pathname:
  assumes "wf_route l"
  obtains rest where "pathname l = CHR ''/'' # rest"
  using assms by (auto simp: wf_route_def prefix_Cons_iff)

lemma wf_route_search:
  assumes "wf_route l" and "search l \<noteq> []"
  obtains c query where "search l = CHR ''?'' # c # query"
proof -
  from assms obtain t where t: "search l = CHR ''?'' # t" "2 \<le> length (search l)"
    by (auto simp: wf_route_def prefix_Cons_iff)
  then show ?thesis by (cases t) (auto intro: that)
qed

lemma wf_route_hash:
  assumes "wf_route l"
  shows "hash l = [] \<or> hd (hash l) = CHR ''#''"
  using assms by (auto simp: wf_route_def prefix_Cons_iff)

lemma wf_route_update_origin [simp]:
  "wf_route (l\<lparr>protocol := a\<rparr>) = wf_route l"
  "wf_route (l\<lparr>hostname := b\<rparr>) = wf_route l"
  "wf_route (l\<lparr>port := c\<rparr>) = wf_route l"
  by (simp_all add: wf_route_def)

lemma wf_origin_update_route [simp]:
  "wf_origin (l\<lparr>pathname := a\<rparr>) = wf_origin l"
  "wf_origin (l\<lparr>search := b\<rparr>) = wf_origin l"
  "wf_origin (l\<lparr>hash := c\<rparr>) = wf_origin l"
  by (simp_all add: wf_origin_def)

lemma origin_update_route [simp]:
  "origin (l\<lparr>pathname := a\<rparr>) = origin l"
  "origin (l\<lparr>search := b\<rparr>) = origin l"
  "origin (l\<lparr>hash := c\<rparr>) = origin l"
  by (simp_all add: origin_def)

text \<open>The definitions that decide well-formedness of a closed location.\<close>

lemmas wf_location_eval =
  wf_location_def wf_origin_def wf_route_def authority_char_def digit_char_def
  default_port_def

end
