(* ===== verification/JS_Value.thy ===== *)
theory JS_Value
  imports JS_String
begin

text \<open>
  The values of the program that are not strings, and the coercions the source
  relies on.

  \<^item> \<open>jsval\<close> is what the global \<open>window.projectPages\<close> may hold.  A finite
    number is kept as an integer with the same truth value (zero or not);
    \<open>JObject\<close> stands for any object, array or function.
  \<^item> \<open>truthy\<close> is ECMAScript's ToBoolean, the test of \<open>c ? a : b\<close> and of
    \<open>a || b\<close>.
  \<^item> \<open>js_or a b\<close> is \<open>a || b\<close>: the left operand when it is truthy.
  \<^item> \<open>js_index xs i\<close> is \<open>xs[i]\<close> on an array: \<open>None\<close> is \<open>undefined\<close>,
    the value of an index past the end.
  \<^item> \<open>to_string v\<close> is the string that \<open>'/' + v\<close> appends for a value
    that is a string or \<open>undefined\<close>.
  \<^item> A property of the object \<open>q\<close> of \<open>resolve\<close> is a string or
    \<open>undefined\<close>, so it is a \<open>string option\<close>: \<open>or_empty v\<close> is
    \<open>v || ''\<close> and \<open>query_suffix v\<close> is \<open>v ? '?' + v : ''\<close>.
\<close>

section \<open>Definitions\<close>

datatype jsval =
    JUndefined
  | JNull
  | JBool bool
  | JNum int
  | JNaN
  | JStr string
  | JObject

fun truthy :: "jsval \<Rightarrow> bool" where
  "truthy JUndefined = False"
| "truthy JNull = False"
| "truthy (JBool b) = b"
| "truthy (JNum n) = (n \<noteq> 0)"
| "truthy JNaN = False"
| "truthy (JStr s) = (s \<noteq> [])"
| "truthy JObject = True"

definition js_or :: "jsval \<Rightarrow> jsval \<Rightarrow> jsval" where
  "js_or a b = (if truthy a then a else b)"

definition js_index :: "'a list \<Rightarrow> nat \<Rightarrow> 'a option" where
  "js_index xs i = (if i < length xs then Some (xs ! i) else None)"

definition to_string :: "string option \<Rightarrow> string" where
  "to_string v = (case v of None \<Rightarrow> ''undefined'' | Some s \<Rightarrow> s)"

definition or_empty :: "string option \<Rightarrow> string" where
  "or_empty v = (case v of None \<Rightarrow> [] | Some s \<Rightarrow> if s \<noteq> [] then s else [])"

definition query_suffix :: "string option \<Rightarrow> string" where
  "query_suffix v = (case v of None \<Rightarrow> [] | Some s \<Rightarrow> if s \<noteq> [] then ''?'' @ s else [])"

section \<open>Coercions\<close>

lemma truthy_js_or: "truthy (js_or a b) \<longleftrightarrow> truthy a \<or> truthy b"
  by (simp add: js_or_def)

lemma js_or_truthy_right [simp]: "truthy b \<Longrightarrow> truthy (js_or a b)"
  by (simp add: truthy_js_or)

lemma js_or_left [simp]: "truthy a \<Longrightarrow> js_or a b = a"
  by (simp add: js_or_def)

lemma js_or_right [simp]: "\<not> truthy a \<Longrightarrow> js_or a b = b"
  by (simp add: js_or_def)

lemma or_empty_simps [simp]:
  "or_empty None = []" "or_empty (Some s) = s"
  by (simp_all add: or_empty_def)

lemma query_suffix_simps [simp]:
  "query_suffix None = []"
  "query_suffix (Some []) = []"
  "s \<noteq> [] \<Longrightarrow> query_suffix (Some s) = CHR ''?'' # s"
  by (simp_all add: query_suffix_def)

lemma query_suffix_mark: "query_suffix v = [] \<or> hd (query_suffix v) = CHR ''?''"
  by (simp add: query_suffix_def split: option.split)

lemma to_string_simps [simp]:
  "to_string (Some s) = s" "to_string None = ''undefined''"
  by (simp_all add: to_string_def)

section \<open>Array access\<close>

lemma js_index_0 [simp]: "js_index (x # xs) 0 = Some x"
  by (simp add: js_index_def)

lemma js_index_Suc [simp]: "js_index (x # xs) (Suc n) = js_index xs n"
  by (simp add: js_index_def)

lemma js_index_Nil [simp]: "js_index [] n = None"
  by (simp add: js_index_def)

lemma js_index_split_0:
  "js_index (split_chr c s) 0 = Some (takeWhile (\<lambda>x. x \<noteq> c) s)"
  by (cases "split_chr c s") (use hd_split_chr[of c s] in auto)

text \<open>
  Element 1 of \<open>s.split(c)\<close> is \<open>undefined\<close> exactly when
  \<open>s\<close> holds no separator; otherwise it is the text between the first
  separator and the second (or the end).
\<close>

lemma js_index_split_1:
  "js_index (split_chr c s) 1 =
     (if c \<in> set s
      then Some (takeWhile (\<lambda>x. x \<noteq> c) (drop 1 (dropWhile (\<lambda>x. x \<noteq> c) s)))
      else None)"
proof (induction s)
  case Nil
  show ?case by simp
next
  case (Cons a s)
  show ?case
  proof (cases "a = c")
    case True
    then show ?thesis by (simp add: js_index_split_0)
  next
    case False
    have "js_index (cons_hd a (split_chr c s)) 1 = js_index (split_chr c s) 1"
      by (cases "split_chr c s") simp_all
    with False Cons show ?thesis by simp
  qed
qed

end
