(* ===== verification/Amp_Codec.thy ===== *)
theory Amp_Codec
  imports JS_String
begin

text \<open>
  The escape of \<open>&\<close> that lets a path or a query travel as one value of a
  query string: \<open>redirect\<close> writes every \<open>&\<close> as the token \<open>~and~\<close>
  (\<open>.replace(/&/g, '~and~')\<close>), \<open>resolve\<close> turns every token back into
  \<open>&\<close> (\<open>.replace(/~and~/g, '&')\<close>).

  The theory shows what the escape guarantees (no \<open>&\<close> is left, the length
  grows by four per \<open>&\<close>, text without \<open>&\<close> is untouched) and
  characterises exactly the strings that survive the round trip
  (\<open>amp_safe\<close>): those that contain neither \<open>~and~\<close> nor \<open>~and&\<close>.
\<close>

section \<open>Definitions\<close>

definition amp_encode :: "string \<Rightarrow> string" where
  "amp_encode s = replace_all ''&'' ''~and~'' s"

definition amp_decode :: "string \<Rightarrow> string" where
  "amp_decode s = replace_all ''~and~'' ''&'' s"

definition amp_safe :: "string \<Rightarrow> bool" where
  "amp_safe s \<longleftrightarrow> \<not> sublist ''~and~'' s \<and> \<not> sublist ''~and&'' s"

section \<open>Encoding\<close>

lemma amp_encode_concat:
  "amp_encode s = concat (map (\<lambda>x. if x = CHR ''&'' then ''~and~'' else [x]) s)"
  by (simp add: amp_encode_def replace_all_single)

lemma amp_encode_Nil [simp]: "amp_encode [] = []"
  by (simp add: amp_encode_concat)

lemma amp_encode_Cons [simp]:
  "amp_encode (x # xs) = (if x = CHR ''&'' then ''~and~'' else [x]) @ amp_encode xs"
  by (simp add: amp_encode_concat)

lemma amp_encode_append [simp]: "amp_encode (a @ b) = amp_encode a @ amp_encode b"
  by (simp add: amp_encode_concat)

lemma amp_encode_id: "CHR ''&'' \<notin> set s \<Longrightarrow> amp_encode s = s"
  by (simp add: amp_encode_concat concat_map_unless)

lemma amp_encode_eq_Nil [simp]: "amp_encode s = [] \<longleftrightarrow> s = []"
  by (cases s) auto

lemma set_amp_encode:
  "set (amp_encode s) = (set s - {CHR ''&''}) \<union> (if CHR ''&'' \<in> set s then set ''~and~'' else {})"
  by (induction s) auto

lemma length_amp_encode:
  "length (amp_encode s) = length s + 4 * count_list s CHR ''&''"
  by (induction s) auto

section \<open>Where a token can start in an encoded string\<close>

lemma amp_encode_head:
  assumes "prefix (c # p) (amp_encode s)" and "c \<noteq> CHR ''~''"
  shows "\<exists>t. s = c # t \<and> prefix p (amp_encode t)"
  using assms by (cases s) (auto split: if_splits)

lemma amp_encode_head_tilde:
  assumes "prefix ''~'' (amp_encode s)"
  shows "prefix ''~'' s \<or> prefix ''&'' s"
  using assms by (cases s) (auto split: if_splits)

lemma amp_encode_token_origin:
  assumes "prefix ''and~'' (amp_encode s)"
  shows "prefix ''and~'' s \<or> prefix ''and&'' s"
proof -
  from amp_encode_head[of "CHR ''a''" "''nd~''" s] assms
  obtain t1 where 1: "s = CHR ''a'' # t1" "prefix ''nd~'' (amp_encode t1)"
    by auto
  from amp_encode_head[of "CHR ''n''" "''d~''" t1] 1(2)
  obtain t2 where 2: "t1 = CHR ''n'' # t2" "prefix ''d~'' (amp_encode t2)"
    by auto
  from amp_encode_head[of "CHR ''d''" "''~''" t2] 2(2)
  obtain t3 where 3: "t2 = CHR ''d'' # t3" "prefix ''~'' (amp_encode t3)"
    by auto
  from amp_encode_head_tilde[OF 3(2)] show ?thesis
    unfolding 1(1) 2(1) 3(1) by (cases t3) auto
qed

lemma amp_encode_unsafe_head:
  assumes "prefix ''~and~'' s \<or> prefix ''~and&'' s"
  shows "prefix ''~and~'' (amp_encode s)"
  using assms by (auto simp: prefix_def)

section \<open>Decoding\<close>

lemma amp_decode_Nil [simp]: "amp_decode [] = []"
  by (simp add: amp_decode_def)

lemma amp_decode_token:
  "amp_decode (''~and~'' @ s) = CHR ''&'' # amp_decode s"
  unfolding amp_decode_def by (subst replace_all_append_match) simp_all

lemmas amp_decode_token_Cons [simp] = amp_decode_token[simplified]

lemma amp_decode_skip:
  "\<not> prefix ''~and~'' (x # xs) \<Longrightarrow> amp_decode (x # xs) = x # amp_decode xs"
  by (simp add: amp_decode_def replace_all_skip)

lemma amp_decode_id: "\<not> sublist ''~and~'' s \<Longrightarrow> amp_decode s = s"
  by (simp add: amp_decode_def replace_all_absent)

text \<open>
  The decoder reads its input from the left: a token, or one character that
  does not start a token.  Induction along this reading:
\<close>

lemma amp_decode_induct [case_names Nil token skip]:
  assumes "P []"
    and "\<And>t. P t \<Longrightarrow> P (''~and~'' @ t)"
    and "\<And>x xs. \<not> prefix ''~and~'' (x # xs) \<Longrightarrow> P xs \<Longrightarrow> P (x # xs)"
  shows "P s"
proof (induction s rule: length_induct)
  case (1 s)
  show ?case
  proof (cases "prefix ''~and~'' s")
    case True
    then obtain t where s: "s = ''~and~'' @ t" by (auto simp: prefix_def)
    with 1 have "P t" by simp
    then show ?thesis unfolding s by (rule assms(2))
  next
    case False
    with 1 assms(1,3) show ?thesis by (cases s) simp_all
  qed
qed

text \<open>
  Neither direction touches a character that is not part of the token or an
  \<open>&\<close>: such characters keep their number and their order.
\<close>

lemma count_list_amp_encode:
  "c \<noteq> CHR ''&'' \<Longrightarrow> c \<notin> set ''~and~'' \<Longrightarrow>
   count_list (amp_encode s) c = count_list s c"
  by (induction s) auto

lemma count_list_amp_decode:
  "c \<noteq> CHR ''&'' \<Longrightarrow> c \<notin> set ''~and~'' \<Longrightarrow>
   count_list (amp_decode s) c = count_list s c"
  by (induction s rule: amp_decode_induct) (auto simp: amp_decode_skip)

lemma set_amp_decode: "set (amp_decode s) \<subseteq> insert CHR ''&'' (set s)"
  by (induction s rule: amp_decode_induct) (auto simp: amp_decode_skip)

lemma decoded_query_chars:
  assumes "c \<notin> set s" and "c \<noteq> CHR ''&''" and "c \<notin> set ''~and~''"
  shows "c \<notin> set (amp_decode (amp_encode s))"
  using assms set_amp_decode[of "amp_encode s"]
  by (fastforce simp: set_amp_encode split: if_splits)

text \<open>
  Decoding never makes a string longer: every token of five characters
  becomes one character and everything else is copied.
\<close>

lemma amp_decode_shorter: "length (amp_decode s) \<le> length s"
  by (induction s rule: amp_decode_induct) (auto simp: amp_decode_skip)

section \<open>The round trip\<close>

lemma amp_safe_Nil [simp]: "amp_safe []"
  by (simp add: amp_safe_def)

lemma amp_safe_ConsD: "amp_safe (x # xs) \<Longrightarrow> amp_safe xs"
  by (simp add: amp_safe_def sublist_Cons_right)

lemma amp_safe_Cons:
  "amp_safe (x # xs) \<longleftrightarrow>
     \<not> prefix ''~and~'' (x # xs) \<and> \<not> prefix ''~and&'' (x # xs) \<and> amp_safe xs"
  by (auto simp: amp_safe_def sublist_Cons_right)

lemma amp_safe_drop: "amp_safe s \<Longrightarrow> amp_safe (drop n s)"
  by (simp add: amp_safe_def not_sublist_drop)

lemma amp_safe_appendD: "amp_safe (a @ b) \<Longrightarrow> amp_safe a \<and> amp_safe b"
  by (auto simp: amp_safe_def dest: not_sublist_appendD)

lemma amp_safe_no_tilde: "CHR ''~'' \<notin> set s \<Longrightarrow> amp_safe s"
  by (auto simp: amp_safe_def dest: sublist_member[where c = "CHR ''~''"])

text \<open>
  One step of the decoder on an encoded string whose first character is not
  an \<open>&\<close>: it consumes a token only when the source text itself starts with
  \<open>~and~\<close> or \<open>~and&\<close>.
\<close>

lemma decoder_matches_literal:
  assumes "x \<noteq> CHR ''&''" and "prefix ''~and~'' (x # amp_encode xs)"
  shows "prefix ''~and~'' (x # xs) \<or> prefix ''~and&'' (x # xs)"
proof -
  from assms(2) have x: "x = CHR ''~''" and "prefix ''and~'' (amp_encode xs)"
    by auto
  from amp_encode_token_origin[OF this(2)] show ?thesis
    unfolding x by auto
qed

lemma amp_decode_encode_Cons:
  "amp_decode (amp_encode (x # xs)) =
     (if x = CHR ''&'' \<or> prefix ''~and~'' (x # xs) \<or> prefix ''~and&'' (x # xs)
      then CHR ''&'' # amp_decode (drop 5 (amp_encode (x # xs)))
      else x # amp_decode (amp_encode xs))"
proof (cases "x = CHR ''&''")
  case True
  then show ?thesis by simp
next
  case False
  show ?thesis
  proof (cases "prefix ''~and~'' (x # xs) \<or> prefix ''~and&'' (x # xs)")
    case True
    then have "prefix ''~and~'' (amp_encode (x # xs))"
      by (rule amp_encode_unsafe_head)
    then obtain t where t: "amp_encode (x # xs) = ''~and~'' @ t"
      by (auto simp: prefix_def)
    show ?thesis
      unfolding t using True by (simp del: amp_encode_Cons)
  next
    case unsafe: False
    with False decoder_matches_literal[of x xs]
    have "\<not> prefix ''~and~'' (x # amp_encode xs)" by blast
    with False unsafe show ?thesis by (simp add: amp_decode_skip)
  qed
qed

lemma amp_roundtrip_safe: "amp_safe s \<Longrightarrow> amp_decode (amp_encode s) = s"
proof (induction s)
  case Nil
  show ?case by simp
next
  case (Cons x xs)
  then have IH: "amp_decode (amp_encode xs) = xs"
    by (simp add: amp_safe_ConsD)
  from Cons.prems have "\<not> prefix ''~and~'' (x # xs)" "\<not> prefix ''~and&'' (x # xs)"
    by (simp_all add: amp_safe_Cons)
  then show ?case
    using IH by (subst amp_decode_encode_Cons) auto
qed

lemma amp_roundtrip_unsafe: "\<not> amp_safe s \<Longrightarrow> amp_decode (amp_encode s) \<noteq> s"
proof (induction s)
  case Nil
  then show ?case by simp
next
  case (Cons x xs)
  show ?case
  proof (cases "prefix ''~and~'' (x # xs) \<or> prefix ''~and&'' (x # xs)")
    case True
    then have "x = CHR ''~''" by auto
    with True show ?thesis by (subst amp_decode_encode_Cons) simp
  next
    case False
    with Cons.prems have "\<not> amp_safe xs" by (metis amp_safe_Cons)
    then have "amp_decode (amp_encode xs) \<noteq> xs" by (rule Cons.IH)
    with False show ?thesis
      by (subst amp_decode_encode_Cons) auto
  qed
qed

text \<open>
  C3 (roundtrip).  Decoding an encoded string gives the string back exactly
  when the string is \<open>amp_safe\<close>: it contains neither \<open>~and~\<close> nor
  \<open>~and&\<close>.  Both are needed: a literal \<open>~and\<close> followed by an
  \<open>&\<close> encodes to \<open>~and~and~\<close>, whose first five characters the
  decoder takes for a token.
\<close>

theorem amp_roundtrip_iff: "amp_decode (amp_encode s) = s \<longleftrightarrow> amp_safe s"
  using amp_roundtrip_safe amp_roundtrip_unsafe by blast

text \<open>
  C4 (safety).  An encoded string holds no \<open>&\<close>, whatever the input: it
  survives as one value of a query string.
\<close>

theorem amp_encode_no_amp: "CHR ''&'' \<notin> set (amp_encode s)"
  by (simp add: set_amp_encode)

text \<open>
  The string \<open>~and&\<close> does not contain the token \<open>~and~\<close>, and still
  does not survive the round trip: it comes back as \<open>&and~\<close>.  Excluding
  the token from the input is not enough.
\<close>

lemma amp_token_free_not_enough:
  "\<not> sublist ''~and~'' ''~and&'' \<and> amp_decode (amp_encode ''~and&'') = ''&and~''"
  by (simp add: gh_eval amp_decode_skip)

end
