(* ===== verification/Query_String.thy ===== *)
theory Query_String
  imports JS_Value Amp_Codec
begin

text \<open>
  The query parser inside \<open>resolve\<close> (\<open>src/ghspa.js\<close>, lines 42 to 49): the
  object \<open>q\<close>, the callback of \<open>forEach\<close> and the loop over the pieces of
  \<open>l.search.slice(1).split('&')\<close>.

  \<^item> \<open>js_object\<close> is the object \<open>q\<close> as the map of its own
    properties.  The program stores strings only, so a property is a
    \<open>string option\<close> with \<open>None\<close> for \<open>undefined\<close>.
    \<open>empty_object\<close> is the literal \<open>{}\<close> of line 42: no own property.
  \<^item> \<open>obj_set q k v\<close> is the assignment \<open>q[k] = v\<close> of a string \<open>v\<close>.
    Under the key \<open>__proto__\<close> the assignment reaches the setter that
    \<open>q\<close> inherits from \<open>Object.prototype\<close>, which ignores a value that
    is neither an object nor \<open>null\<close>: nothing is stored.
  \<^item> \<open>query_entry\<close> is the callback, \<open>parse_query\<close> the whole loop:
    \<open>forEach\<close> over the pieces in their order, from the empty object.
  \<^item> \<open>q.p\<close> and \<open>q.q\<close> are the applications \<open>q ''p''\<close> and \<open>q ''q''\<close>:
    \<open>Object.prototype\<close> has no property of either name, so the lookup
    finds an own property or \<open>undefined\<close>.

  \<open>key_value\<close> is the reference the callback is compared with: the key is
  the text before the first \<open>=\<close>, the value the decoded text after it.
\<close>

section \<open>Definitions\<close>

type_synonym js_object = "string \<rightharpoonup> string"

definition empty_object :: js_object where
  "empty_object = Map.empty"

declare empty_object_def [simp]

definition obj_set :: "js_object \<Rightarrow> string \<Rightarrow> string \<Rightarrow> js_object" where
  "obj_set q k v = (if k = ''__proto__'' then q else q(k \<mapsto> v))"

definition query_entry :: "js_object \<Rightarrow> string \<Rightarrow> js_object" where
  "query_entry q v =
     (let a = split_chr CHR ''='' v
      in obj_set q (to_string (js_index a 0)) (amp_decode (join ''='' (js_slice 1 a))))"

definition parse_query :: "string \<Rightarrow> js_object" where
  "parse_query s = for_each query_entry (split_chr CHR ''&'' (js_slice 1 s)) empty_object"

definition key_value :: "string \<Rightarrow> string \<times> string" where
  "key_value v =
     (takeWhile (\<lambda>x. x \<noteq> CHR ''='') v,
      amp_decode (drop 1 (dropWhile (\<lambda>x. x \<noteq> CHR ''='') v)))"

definition stored :: "string \<times> string \<Rightarrow> bool" where
  "stored kv \<longleftrightarrow> fst kv \<noteq> ''__proto__''"

section \<open>The callback\<close>

lemma obj_set_apply:
  "obj_set q k v k' = (if k' = k \<and> k \<noteq> ''__proto__'' then Some v else q k')"
  by (simp add: obj_set_def)

lemma obj_set_proto [simp]: "obj_set q ''__proto__'' v = q"
  by (simp add: obj_set_def)

lemma obj_set_other [simp]: "k \<noteq> ''__proto__'' \<Longrightarrow> obj_set q k v = q(k \<mapsto> v)"
  by (simp add: obj_set_def)

lemma query_entry_key_value:
  "query_entry q v = obj_set q (fst (key_value v)) (snd (key_value v))"
  by (simp add: query_entry_def key_value_def Let_def js_index_split_0
      drop_Suc join_tl_split_chr)

lemma key_value_assign [simp]:
  "CHR ''='' \<notin> set k \<Longrightarrow> key_value (k @ CHR ''='' # v) = (k, amp_decode v)"
  by (simp add: key_value_def takeWhile_append_sep dropWhile_append_sep)

lemma key_value_p [simp]: "key_value (CHR ''p'' # CHR ''='' # v) = (''p'', amp_decode v)"
  using key_value_assign[of "''p''" v] by simp

lemma key_value_q [simp]: "key_value (CHR ''q'' # CHR ''='' # v) = (''q'', amp_decode v)"
  using key_value_assign[of "''q''" v] by simp

lemma key_value_bare:
  assumes "CHR ''='' \<notin> set k"
  shows "key_value k = (k, [])"
proof -
  from assms have "\<forall>x \<in> set k. x \<noteq> CHR ''=''" by auto
  then have scan: "takeWhile (\<lambda>x. x \<noteq> CHR ''='') k = k" "dropWhile (\<lambda>x. x \<noteq> CHR ''='') k = []"
    by (simp_all add: takeWhile_eq_all_conv)
  show ?thesis unfolding key_value_def scan by simp
qed

section \<open>The loop\<close>

lemma foldl_query_entry:
  "foldl query_entry q vs =
     q ++ map_of (rev (filter stored (map key_value vs)))"
proof (induction vs arbitrary: q)
  case Nil
  show ?case by simp
next
  case (Cons v vs)
  obtain k w where kv: "key_value v = (k, w)"
    by (cases "key_value v")
  show ?case
  proof (cases "k = ''__proto__''")
    case True
    with kv have "query_entry q v = q"
      by (simp add: query_entry_key_value)
    with kv True show ?thesis
      by (simp add: Cons stored_def)
  next
    case False
    with kv have "query_entry q v = q ++ map_of [(k, w)]"
      by (simp add: query_entry_key_value)
    with kv False show ?thesis
      by (simp add: Cons stored_def del: map_of.simps)
  qed
qed

lemma parse_query_map_of:
  "parse_query s =
     map_of (rev (filter stored (map key_value (split_chr CHR ''&'' (drop 1 s)))))"
  by (simp add: parse_query_def for_each_foldl foldl_query_entry)

lemma map_of_filter_stored:
  "map_of (filter stored kvs) k = (if k = ''__proto__'' then None else map_of kvs k)"
  by (induction kvs) (auto simp: stored_def)

text \<open>
  C7 (refinement).  The loop of \<open>resolve\<close> over the pieces of the query,
  which assigns into the object \<open>q\<close> piece by piece, computes the lookup
  in the list of key and value pairs in which a later piece overrides an
  earlier one with the same key; the key \<open>__proto__\<close> is never stored.
\<close>

theorem parse_query_last_wins:
  "parse_query s k =
     (if k = ''__proto__'' then None
      else map_of (rev (map key_value (split_chr CHR ''&'' (drop 1 s)))) k)"
  by (simp add: parse_query_map_of rev_filter map_of_filter_stored)

text \<open>
  C34 (functional).  The callback splits a piece at its first \<open>=\<close> only:
  the key is the text before it, and the value is everything after it,
  further \<open>=\<close> included, decoded.
\<close>

theorem query_entry_first_equals:
  assumes "CHR ''='' \<notin> set k" and "k \<noteq> ''__proto__''"
  shows "query_entry q (k @ CHR ''='' # v) = q(k \<mapsto> amp_decode v)"
  using assms by (simp add: query_entry_key_value)

theorem query_entry_first_equals_witness:
  "query_entry Map.empty ''b=x=y~and~z'' ''b'' = Some ''x=y&z''"
  using query_entry_first_equals[of "''b''" Map.empty "''x=y~and~z''"]
  by (simp add: amp_decode_skip)

lemma fst_key_value [simp]: "fst (key_value v) = takeWhile (\<lambda>x. x \<noteq> CHR ''='') v"
  by (simp add: key_value_def)

lemma parse_query_eq_None:
  "parse_query s k = None \<longleftrightarrow>
     k = ''__proto__'' \<or>
     k \<notin> set (map (takeWhile (\<lambda>x. x \<noteq> CHR ''='')) (split_chr CHR ''&'' (drop 1 s)))"
proof -
  have "fst ` set (filter stored (map key_value vs)) =
        set (map (takeWhile (\<lambda>x. x \<noteq> CHR ''='')) vs) - {''__proto__''}" for vs
    by (induction vs) (auto simp: stored_def)
  then show ?thesis
    unfolding parse_query_map_of map_of_eq_None_iff by auto
qed

section \<open>The keys of the object\<close>

text \<open>
  C33 (type).  The object \<open>q\<close> is well formed after the loop: every key
  it holds is the text of a piece before its first \<open>=\<close>, so it contains
  neither \<open>&\<close> nor \<open>=\<close>, and it is not \<open>__proto__\<close>.
\<close>

theorem parse_query_keys:
  assumes "parse_query s k = Some v"
  shows "CHR ''&'' \<notin> set k \<and> CHR ''='' \<notin> set k \<and> k \<noteq> ''__proto__''"
proof -
  from assms have "parse_query s k \<noteq> None" by simp
  then obtain piece where piece: "piece \<in> set (split_chr CHR ''&'' (drop 1 s))"
    and k: "k = takeWhile (\<lambda>x. x \<noteq> CHR ''='') piece" and proto: "k \<noteq> ''__proto__''"
    unfolding parse_query_eq_None by auto
  from piece have "CHR ''&'' \<notin> set piece" by (rule split_chr_pieces)
  with k proto show ?thesis
    by (auto dest: set_takeWhileD)
qed

theorem parse_query_keys_witness:
  "parse_query ''?p=/a&q=x=1'' ''q'' = Some ''x=1'' \<and>
   CHR ''&'' \<notin> set ''q'' \<and> CHR ''='' \<notin> set ''q'' \<and> ''q'' \<noteq> ''__proto__''"
proof -
  have q: "parse_query ''?p=/a&q=x=1'' ''q'' = Some ''x=1''"
    by (simp add: parse_query_def query_entry_def obj_set_def js_index_def
        amp_decode_def replace_all.simps)
  from parse_query_keys[OF q] q show ?thesis by simp
qed

section \<open>The values of the object\<close>

text \<open>
  A value of the object is made of characters of the query, and of \<open>&\<close>
  where the decoder put one.
\<close>

lemma parse_query_value_chars:
  assumes "parse_query s k = Some v" and "c \<notin> set s" and "c \<noteq> CHR ''&''"
  shows "c \<notin> set v"
proof -
  from assms(1) obtain piece where piece: "piece \<in> set (split_chr CHR ''&'' (drop 1 s))"
    and v: "v = amp_decode (drop 1 (dropWhile (\<lambda>x. x \<noteq> CHR ''='') piece))"
    by (auto simp: parse_query_map_of key_value_def dest!: map_of_SomeD)
  from set_split_chr[OF piece] assms(2) have "c \<notin> set piece"
    by (auto dest: in_set_dropD)
  then have "c \<notin> set (drop 1 (dropWhile (\<lambda>x. x \<noteq> CHR ''='') piece))"
    by (auto dest: in_set_dropD set_dropWhileD)
  with set_amp_decode assms(3) show ?thesis
    unfolding v by fastforce
qed

end
