(* ===== verification/Ghspa.thy ===== *)
theory Ghspa
  imports Location Query_String
begin

text \<open>
  The program of \<open>src/ghspa.js\<close>: the immediately invoked function of lines
  21 to 62, one definition per function and per named piece of the URL it
  assembles.

  \<^item> \<open>effect\<close> is what one run does to the browser: one call of a method
    of \<open>window.location\<close> or \<open>window.history\<close> that sets the address,
    with its URL argument, or nothing.  The two objects have two such methods
    each, one that adds an entry to the session history and one that replaces
    the current entry: \<open>assign\<close> and \<open>replace\<close>, which load the
    document at the URL, and \<open>pushState\<close> and \<open>replaceState\<close>, which
    load nothing.  The source calls \<open>l.replace(url)\<close> (line 26) and
    \<open>window.history.replaceState(null, null, url)\<close> (line 51); which
    method a function calls is part of its value, and theory \<open>History\<close>
    gives the four their meaning.  A run performs at most one call, so a run
    is a function into \<open>effect\<close>.
  \<^item> \<open>repo l projectPages\<close> is the variable \<open>repo\<close> of line 22, which both
    inner functions read; they take it as their second argument.
  \<^item> \<open>redirect\<close> is the function of lines 25 to 37.  \<open>p_param\<close> and
    \<open>q_param\<close> are the two conditional pieces of lines 33 and 34,
    \<open>redirect_url\<close> the whole argument of \<open>l.replace\<close>.
  \<^item> \<open>resolve\<close> is the function of lines 40 to 58, \<open>resolve_url\<close> the
    third argument of \<open>replaceState\<close> (line 54).
  \<^item> \<open>fallback_document\<close> is the test \<open>document.title === '404'\<close> of
    line 61, the classifier of the two documents.
  \<^item> \<open>ghspa_iife\<close> is the function body with its parameters \<open>l\<close> and
    \<open>projectPages\<close> (and the title of the document, which line 61 reads
    from \<open>document.title\<close>); \<open>ghspa\<close> is the call of line 62, where the
    second argument is \<open>window.projectPages || true\<close>.
  \<^item> \<open>landing l r\<close> is the location that the URL of \<open>redirect\<close> denotes:
    the location of the real document when the browser has followed it
    (theory \<open>Browser\<close> proves this against the URL parser).
\<close>

section \<open>Definitions\<close>

datatype effect =
    LocationAssign string
  | LocationReplace string
  | HistoryPushState string
  | HistoryReplaceState string
  | NoEffect

definition repo :: "location \<Rightarrow> jsval \<Rightarrow> string" where
  "repo l projectPages =
     (if truthy projectPages
      then ''/'' @ to_string (js_index (split_chr CHR ''/'' (pathname l)) 1)
      else [])"

definition p_param :: "location \<Rightarrow> string \<Rightarrow> string" where
  "p_param l r =
     (if pathname l \<noteq> []
      then ''p='' @ replace_first r [] (amp_encode (pathname l))
      else [])"

definition q_param :: "location \<Rightarrow> string" where
  "q_param l =
     (if search l \<noteq> [] then ''&q='' @ amp_encode (js_slice 1 (search l)) else [])"

definition redirect_url :: "location \<Rightarrow> string \<Rightarrow> string" where
  "redirect_url l r = origin l @ r @ ''/?'' @ p_param l r @ q_param l @ hash l"

definition redirect :: "location \<Rightarrow> string \<Rightarrow> effect" where
  "redirect l r = LocationReplace (redirect_url l r)"

definition resolve_url :: "js_object \<Rightarrow> location \<Rightarrow> string \<Rightarrow> string" where
  "resolve_url q l r = r @ or_empty (q ''p'') @ query_suffix (q ''q'') @ hash l"

definition resolve :: "location \<Rightarrow> string \<Rightarrow> effect" where
  "resolve l r =
     (if search l \<noteq> []
      then (let q = parse_query (search l)
            in if q ''p'' \<noteq> None then HistoryReplaceState (resolve_url q l r)
               else NoEffect)
      else NoEffect)"

definition fallback_document :: "string \<Rightarrow> bool" where
  "fallback_document title \<longleftrightarrow> title = ''404''"

declare fallback_document_def [simp]

definition ghspa_iife :: "string \<Rightarrow> location \<Rightarrow> jsval \<Rightarrow> effect" where
  "ghspa_iife title l projectPages =
     (let r = repo l projectPages
      in if fallback_document title then redirect l r else resolve l r)"

definition ghspa :: "string \<Rightarrow> location \<Rightarrow> jsval \<Rightarrow> effect" where
  "ghspa title l window_projectPages =
     ghspa_iife title l (js_or window_projectPages (JBool True))"

definition landing :: "location \<Rightarrow> string \<Rightarrow> location" where
  "landing l r =
     l\<lparr>pathname := r @ ''/'', search := ''?'' @ p_param l r @ q_param l\<rparr>"

lemmas ghspa_defs [gh_defs] =
  repo_def p_param_def q_param_def redirect_url_def redirect_def
  resolve_url_def resolve_def ghspa_iife_def ghspa_def landing_def origin_def

section \<open>The repository prefix\<close>

lemma repo_falsy [simp]: "\<not> truthy pp \<Longrightarrow> repo l pp = []"
  by (simp add: repo_def)

lemma repo_truthy:
  "truthy pp \<Longrightarrow>
   repo l pp = CHR ''/'' # to_string (js_index (split_chr CHR ''/'' (pathname l)) 1)"
  by (simp add: repo_def)

text \<open>
  C35 (functional).  The variable \<open>repo\<close> of line 22, for every pathname
  and every value of the flag.  With a truthy flag it is a slash and element
  1 of \<open>l.pathname.split('/')\<close>: the text between the first slash of the
  pathname and the second (or the end), and the word \<open>undefined\<close> when
  the pathname holds no slash.  For a pathname that starts with a slash this
  is its first segment; element 0 would be the empty text in front of the
  first slash, element 2 the second segment.
\<close>

theorem repo_second_piece:
  "repo l pp =
     (if \<not> truthy pp then []
      else if CHR ''/'' \<in> set (pathname l)
      then CHR ''/'' #
           takeWhile (\<lambda>x. x \<noteq> CHR ''/'')
             (drop 1 (dropWhile (\<lambda>x. x \<noteq> CHR ''/'') (pathname l)))
      else ''/undefined'')"
  using js_index_split_1[of "CHR ''/''" "pathname l"] by (simp add: repo_def)

text \<open>
  On a path without a slash, \<open>split('/')[1]\<close> is \<open>undefined\<close> and the
  concatenation turns it into text: the prefix is \<open>/undefined\<close>.
\<close>

lemma repo_undefined:
  assumes "CHR ''/'' \<notin> set (pathname l)" and "truthy pp"
  shows "repo l pp = ''/undefined''"
  using assms by (simp add: repo_truthy js_index_def split_chr_no_sep)

text \<open>
  On a path that starts with \<open>/\<close> the prefix is that slash and the first
  segment: the text up to the second slash, or the whole path.
\<close>

lemma repo_first_segment:
  assumes "truthy pp" and "pathname l = CHR ''/'' # rest"
  shows "repo l pp = CHR ''/'' # takeWhile (\<lambda>x. x \<noteq> CHR ''/'') rest"
  using assms by (simp add: repo_truthy js_index_split_0)

lemma repo_wf:
  assumes "wf_route l" and "truthy pp"
  shows "repo l pp = CHR ''/'' # takeWhile (\<lambda>x. x \<noteq> CHR ''/'') (tl (pathname l))"
proof -
  from assms(1) obtain rest where "pathname l = CHR ''/'' # rest"
    by (rule wf_route_pathname)
  with repo_first_segment[OF assms(2) this] show ?thesis
    by simp
qed

lemma repo_prefix:
  assumes "wf_route l"
  shows "prefix (repo l pp) (pathname l)"
proof (cases "truthy pp")
  case True
  from assms obtain rest where rest: "pathname l = CHR ''/'' # rest"
    by (rule wf_route_pathname)
  have "prefix (takeWhile (\<lambda>x. x \<noteq> CHR ''/'') rest) rest"
    by (rule takeWhile_is_prefix)
  with rest show ?thesis by (simp add: repo_wf[OF assms True])
qed simp

lemma repo_no_inner_slash:
  assumes "wf_route l"
  shows "CHR ''/'' \<notin> set (tl (repo l pp))"
  by (cases "truthy pp") (simp_all add: repo_wf[OF assms])

lemma repo_single_slash:
  assumes "wf_route l" and "truthy pp" and "repo l pp \<noteq> ''/''"
  shows "prefix ''/'' (repo l pp @ x)" and "\<not> prefix ''//'' (repo l pp @ x)"
  using assms(3) repo_no_inner_slash[OF assms(1), of pp]
  by (cases "tl (repo l pp)"; auto simp: repo_truthy[OF assms(2)])+

section \<open>The redirect URL\<close>

lemma encoded_path_strip:
  assumes "prefix r path" and "CHR ''&'' \<notin> set r"
  shows "replace_first r [] (amp_encode path) = amp_encode (drop (length r) path)"
proof -
  from assms(1) obtain rest where path: "path = r @ rest"
    by (auto simp: prefix_def)
  with assms(2) have "amp_encode path = r @ amp_encode rest"
    by (simp add: amp_encode_id)
  then show ?thesis
    by (simp add: replace_first_prefix path)
qed

lemma encoded_path_keep:
  assumes "CHR ''&'' \<in> set r"
  shows "replace_first r [] (amp_encode path) = amp_encode path"
proof -
  have "CHR ''&'' \<notin> set (amp_encode path)"
    by (simp add: set_amp_encode)
  with assms have "\<not> sublist r (amp_encode path)"
    by (auto dest: sublist_member)
  then show ?thesis by (rule replace_first_absent)
qed

text \<open>
  C31 (functional).  In project mode the value of \<open>p\<close> is the path
  without the repository prefix, encoded, provided the first segment of
  the path holds no \<open>&\<close>.
\<close>

theorem p_param_strips_prefix:
  assumes "wf_route l" and "CHR ''&'' \<notin> set (repo l pp)"
  shows "p_param l (repo l pp) = ''p='' @ amp_encode (drop (length (repo l pp)) (pathname l))"
proof -
  from assms(1) have "pathname l \<noteq> []"
    by (auto elim: wf_route_pathname)
  with assms show ?thesis
    by (simp add: p_param_def encoded_path_strip repo_prefix)
qed

theorem p_param_strips_prefix_witness:
  "p_param amp_request (repo amp_request (JBool True)) = ''p=/a~and~b''"
  using p_param_strips_prefix[of amp_request "JBool True"]
  by (simp add: wf_route_def repo_def)

lemma p_param_no_amp: "CHR ''&'' \<notin> set (p_param l r)"
  by (simp add: p_param_def replace_first_notin set_amp_encode)

text \<open>
  C5 (safety).  The query string that \<open>redirect\<close> writes holds exactly one
  \<open>&\<close> when the request had a query, the one in front of \<open>q=\<close>, and
  none otherwise: the path and the query each survive as a single value.
\<close>

theorem redirect_single_separator:
  "count_list (p_param l r @ q_param l) CHR ''&'' = (if search l = [] then 0 else 1)"
proof -
  have "count_list s CHR ''&'' = 0" if "CHR ''&'' \<notin> set s" for s
    using that by (simp add: count_list_0_iff)
  then show ?thesis
    by (simp add: p_param_no_amp q_param_def set_amp_encode)
qed

lemma payload_pieces:
  "split_chr CHR ''&'' (p_param l r @ q_param l) =
     (if search l = [] then [p_param l r]
      else [p_param l r, ''q='' @ amp_encode (drop 1 (search l))])"
  using split_chr_append_sep[OF p_param_no_amp, of l r]
  by (simp add: q_param_def split_chr_no_sep p_param_no_amp set_amp_encode)

section \<open>What the real document reads back\<close>

lemma landing_fields [simp]:
  "pathname (landing l r) = r @ ''/''"
  "search (landing l r) = CHR ''?'' # p_param l r @ q_param l"
  "hash (landing l r) = hash l"
  "protocol (landing l r) = protocol l"
  "hostname (landing l r) = hostname l"
  "port (landing l r) = port l"
  by (simp_all add: landing_def)

text \<open>
  The real document computes the same prefix as the fallback document did:
  the path it is served under is the prefix and a slash.
\<close>

lemma repo_landing:
  assumes "wf_route l"
  shows "repo (landing l (repo l pp)) pp = repo l pp"
proof (cases "truthy pp")
  case True
  let ?seg = "takeWhile (\<lambda>x. x \<noteq> CHR ''/'') (tl (pathname l))"
  have "pathname (landing l (repo l pp)) = CHR ''/'' # ?seg @ ''/''"
    by (simp add: repo_wf[OF assms True])
  from repo_first_segment[OF True this] show ?thesis
    by (simp add: repo_wf[OF assms True] takeWhile_append_sep)
qed simp

lemma parse_query_landing_p:
  assumes "pathname l \<noteq> []"
  shows "parse_query (search (landing l r)) ''p'' =
         Some (amp_decode (replace_first r [] (amp_encode (pathname l))))"
  using assms
  by (simp add: parse_query_map_of payload_pieces stored_def) (simp add: p_param_def)

lemma parse_query_landing_q:
  assumes "pathname l \<noteq> []"
  shows "parse_query (search (landing l r)) ''q'' =
         (if search l = [] then None
          else Some (amp_decode (amp_encode (drop 1 (search l)))))"
  using assms
  by (simp add: parse_query_map_of payload_pieces stored_def) (simp add: p_param_def)

section \<open>The dispatch\<close>

lemma repo_depends_on_truth: "truthy pp = truthy pp' \<Longrightarrow> repo l pp = repo l pp'"
  by (simp add: repo_def)

lemma ghspa_dispatch:
  "ghspa title l w =
     (if title = ''404'' then LocationReplace (redirect_url l (repo l (JBool True)))
      else resolve l (repo l (JBool True)))"
proof -
  have "repo l (js_or w (JBool True)) = repo l (JBool True)"
    by (rule repo_depends_on_truth) simp
  then show ?thesis
    by (simp add: ghspa_def ghspa_iife_def redirect_def)
qed

section \<open>A path without a slash\<close>

text \<open>
  C36 (error).  The fallback document on a location whose path holds no
  slash, the empty path included: \<open>split('/')[1]\<close> is \<open>undefined\<close>, the
  concatenation turns it into text, and the script navigates to
  \<open>/undefined/\<close>.  The path travels whole in \<open>p\<close>, since the prefix
  does not occur in it; for the empty path the test of line 33 fails, there
  is no \<open>p\<close>, and the query starts with \<open>&q=\<close> or is empty.  (A browser
  never shows such a path for an \<open>http\<close> URL; the program has no guard of
  its own.)
\<close>

theorem redirect_no_slash:
  assumes "CHR ''/'' \<notin> set (pathname l)"
  shows "ghspa ''404'' l w =
         LocationReplace
           (origin l @ ''/undefined/?'' @
            (if pathname l = [] then [] else ''p='' @ amp_encode (pathname l)) @
            q_param l @ hash l)"
proof -
  from assms have "CHR ''/'' \<notin> set (amp_encode (pathname l))"
    by (auto simp: set_amp_encode)
  then have "\<not> sublist ''/undefined'' (amp_encode (pathname l))"
    by (auto dest: sublist_member[where c = "CHR ''/''"])
  then show ?thesis
    by (simp add: ghspa_dispatch redirect_url_def p_param_def repo_undefined[OF assms]
        replace_first_absent)
qed

theorem redirect_no_slash_witness:
  "ghspa ''404'' (scenario\<lparr>pathname := []\<rparr>) JUndefined =
     LocationReplace ''https://user.github.io/undefined/?&q=x=1#top''"
  using redirect_no_slash[of "scenario\<lparr>pathname := []\<rparr>" JUndefined]
  by (simp add: origin_def q_param_def)

section \<open>The round trip of redirect and resolve\<close>

lemma resolve_landing:
  assumes "pathname l \<noteq> []"
  shows "resolve (landing l r) r' =
         HistoryReplaceState
           (r' @ amp_decode (replace_first r [] (amp_encode (pathname l))) @
            (if search l = [] then []
             else query_suffix (Some (amp_decode (amp_encode (drop 1 (search l)))))) @
            hash l)"
  using assms
  by (simp add: resolve_def resolve_url_def Let_def
      parse_query_landing_p parse_query_landing_q del: landing_fields(2))
     simp

lemma query_suffix_search:
  assumes "wf_route l" and "search l \<noteq> []"
  shows "query_suffix (Some (drop 1 (search l))) = search l"
proof -
  from assms obtain c query where "search l = CHR ''?'' # c # query"
    by (rule wf_route_search)
  then show ?thesis by simp
qed

lemma redirect_resolve_path_query:
  assumes wf: "wf_route l"
    and repo: "CHR ''&'' \<notin> set (repo l pp)"
    and path: "amp_safe (drop (length (repo l pp)) (pathname l))"
    and query: "amp_safe (drop 1 (search l))"
  shows "resolve (landing l (repo l pp)) (repo (landing l (repo l pp)) pp) =
         HistoryReplaceState (pathname l @ search l @ hash l)"
proof -
  let ?r = "repo l pp"
  from wf have nonempty: "pathname l \<noteq> []"
    by (auto elim: wf_route_pathname)
  have "amp_decode (replace_first ?r [] (amp_encode (pathname l))) =
        drop (length ?r) (pathname l)"
    using repo_prefix[OF wf] repo path
    by (simp add: encoded_path_strip amp_roundtrip_safe)
  moreover have "?r @ drop (length ?r) (pathname l) = pathname l"
    using repo_prefix[OF wf] by simp
  moreover have "(if search l = [] then []
       else query_suffix (Some (amp_decode (amp_encode (drop 1 (search l)))))) = search l"
    using query query_suffix_search[OF wf] by (simp add: amp_roundtrip_safe)
  ultimately show ?thesis
    by (simp only: resolve_landing[OF nonempty] repo_landing[OF wf] append_assoc[symmetric])
qed

text \<open>
  C2 (roundtrip).  The program on the real document undoes the program on
  the fallback document: run on the location that the redirect leads to,
  with any value of \<open>window.projectPages\<close> and any title but
  \<open>404\<close>, it rewrites the address to the path, query and fragment of the
  original request.  The request must be well formed, its first segment free
  of \<open>&\<close>, and the rest of its path and its query \<open>amp_safe\<close>.
\<close>

theorem redirect_resolve_roundtrip:
  assumes "wf_route l" and "title \<noteq> ''404''"
    and "CHR ''&'' \<notin> set (repo l (JBool True))"
    and "amp_safe (drop (length (repo l (JBool True))) (pathname l))"
    and "amp_safe (drop 1 (search l))"
  shows "ghspa title (landing l (repo l (JBool True))) w =
         HistoryReplaceState (pathname l @ search l @ hash l)"
  using assms by (simp add: ghspa_dispatch redirect_resolve_path_query)

theorem redirect_resolve_roundtrip_witness:
  "ghspa ''Home'' (landing amp_request ''/my-repo'') JUndefined =
     HistoryReplaceState ''/my-repo/a&b?x=1&y=2#s2''"
  using redirect_resolve_roundtrip[of amp_request "''Home''" JUndefined]
  by (simp add: wf_route_def repo_def amp_safe_def gh_eval)

section \<open>A prefix with an ampersand\<close>

text \<open>
  C8 (functional).  When the first segment of the path holds an \<open>&\<close>,
  the prefix is not found in the encoded path (the program encodes before it
  strips), the whole path travels in \<open>p\<close>, and the real document puts
  the prefix in front of it a second time.
\<close>

theorem prefix_amp_duplicates:
  assumes wf: "wf_route l"
    and repo: "CHR ''&'' \<in> set (repo l pp)"
    and path: "amp_safe (pathname l)"
    and query: "amp_safe (drop 1 (search l))"
  shows "resolve (landing l (repo l pp)) (repo (landing l (repo l pp)) pp) =
         HistoryReplaceState (repo l pp @ pathname l @ search l @ hash l)"
proof -
  from wf have nonempty: "pathname l \<noteq> []"
    by (auto elim: wf_route_pathname)
  have "amp_decode (replace_first (repo l pp) [] (amp_encode (pathname l))) = pathname l"
    using repo path by (simp add: encoded_path_keep amp_roundtrip_safe)
  moreover have "(if search l = [] then []
       else query_suffix (Some (amp_decode (amp_encode (drop 1 (search l)))))) = search l"
    using query query_suffix_search[OF wf] by (simp add: amp_roundtrip_safe)
  ultimately show ?thesis
    by (simp only: resolve_landing[OF nonempty] repo_landing[OF wf])
qed

theorem prefix_amp_duplicates_witness:
  "resolve (landing (scenario\<lparr>pathname := ''/a&b/c''\<rparr>) ''/a&b'') ''/a&b'' =
     HistoryReplaceState ''/a&b/a&b/c?x=1#top''"
  using prefix_amp_duplicates[of "scenario\<lparr>pathname := ''/a&b/c''\<rparr>" "JBool True"]
  by (simp add: wf_route_def repo_def amp_safe_def gh_eval landing_def)

section \<open>When resolve does nothing\<close>

text \<open>
  C6 (functional).  \<open>resolve\<close> leaves the address alone exactly when the
  location has no query or no piece of the query has the key \<open>p\<close>; a
  piece \<open>p=\<close> with an empty value counts as present.
\<close>

theorem resolve_noop_iff:
  "resolve l r = NoEffect \<longleftrightarrow>
     search l = [] \<or>
     ''p'' \<notin> set (map (takeWhile (\<lambda>x. x \<noteq> CHR ''=''))
                       (split_chr CHR ''&'' (drop 1 (search l))))"
proof (cases "search l = []")
  case True
  then show ?thesis by (simp add: resolve_def)
next
  case False
  then have "resolve l r = NoEffect \<longleftrightarrow> parse_query (search l) ''p'' = None"
    by (simp add: resolve_def Let_def)
  with False show ?thesis
    by (simp only: parse_query_eq_None) simp
qed

section \<open>A query that redirect did not write\<close>

text \<open>
  C26 (functional).  \<open>resolve\<close> cannot tell the payload of \<open>redirect\<close>
  from a parameter \<open>p\<close> of the application.  A visit to a page of the
  site with a query \<open>?p=v\<close> of its own has its address rewritten to the
  prefix followed by \<open>v\<close>, whatever \<open>v\<close> is.
\<close>

theorem resolve_foreign_p:
  assumes "search l = ''?p='' @ v"
    and "CHR ''&'' \<notin> set v" and "\<not> sublist ''~and~'' v"
  shows "resolve l r = HistoryReplaceState (r @ v @ hash l)"
proof -
  from assms(2) have "split_chr CHR ''&'' (''p='' @ v) = [''p='' @ v]"
    by (simp add: split_chr_no_sep)
  with assms(1,3) have "parse_query (search l) ''p'' = Some v"
    and "parse_query (search l) ''q'' = None"
    by (simp_all add: parse_query_map_of stored_def amp_decode_id)
  with assms(1) show ?thesis
    by (simp add: resolve_def resolve_url_def)
qed

theorem resolve_foreign_p_witness:
  "resolve (scenario\<lparr>pathname := ''/my-repo/'', search := ''?p=2''\<rparr>) ''/my-repo'' =
     HistoryReplaceState ''/my-repo2#top''"
  using resolve_foreign_p[of "scenario\<lparr>pathname := ''/my-repo/'', search := ''?p=2''\<rparr>"
      "''2''" "''/my-repo''"]
  by (simp add: gh_eval)

section \<open>The configuration flag\<close>

text \<open>
  C9 (functional).  The value of \<open>window.projectPages\<close> has no influence
  on what the program does: \<open>window.projectPages || true\<close> is truthy for
  every value, \<open>false\<close> included, so the repository prefix is always
  computed and is never empty.
\<close>

theorem ghspa_flag_ignored:
  "ghspa title l w = ghspa title l w' \<and> repo l (js_or w (JBool True)) \<noteq> []"
  by (simp add: ghspa_dispatch repo_def)

text \<open>
  C29 (functional).  The program navigates exactly when the title of the
  document is \<open>404\<close>; under every other title it runs \<open>resolve\<close>,
  which never navigates.
\<close>

theorem ghspa_navigates_iff:
  "(\<exists>u. ghspa title l w = LocationReplace u) \<longleftrightarrow> title = ''404''"
  by (auto simp: ghspa_dispatch resolve_def Let_def)

text \<open>
  C30 (safety).  The URL that the program passes to \<open>replaceState\<close>
  always starts with a slash, because the prefix does: the browser never
  resolves it against the directory of the current path.
\<close>

theorem ghspa_reference_shape:
  assumes "ghspa title l w = HistoryReplaceState u"
  shows "prefix ''/'' u"
  using assms
  by (auto simp: ghspa_dispatch resolve_def resolve_url_def repo_def Let_def split: if_splits)

theorem ghspa_reference_shape_witness:
  "ghspa ''Home'' (landing scenario ''/my-repo'') JUndefined =
     HistoryReplaceState ''/my-repo/docs/intro?x=1#top'' \<and>
   prefix ''/'' ''/my-repo/docs/intro?x=1#top''"
proof -
  have run: "ghspa ''Home'' (landing scenario ''/my-repo'') JUndefined =
      HistoryReplaceState ''/my-repo/docs/intro?x=1#top''"
    by (simp add: ghspa_dispatch gh_defs Let_def parse_query_def query_entry_def
        obj_set_def amp_decode_def amp_encode_def replace_all.simps js_index_def)
  from ghspa_reference_shape[OF run] run show ?thesis
    by simp
qed

section \<open>The length of the redirect URL\<close>

lemma length_p_param:
  assumes "wf_route l"
  shows "length (p_param l (repo l pp)) + length (repo l pp) =
         length (pathname l) + 2 + 4 * count_list (pathname l) CHR ''&'' +
         (if CHR ''&'' \<in> set (repo l pp) then length (repo l pp) else 0)"
proof (cases "CHR ''&'' \<in> set (repo l pp)")
  case True
  from assms have "pathname l \<noteq> []" by (auto simp: wf_route_def)
  with True show ?thesis
    by (simp add: p_param_def encoded_path_keep length_amp_encode)
next
  case False
  from repo_prefix[OF assms, of pp] obtain rest where path: "pathname l = repo l pp @ rest"
    by (auto simp: prefix_def)
  from assms have "pathname l \<noteq> []" by (auto simp: wf_route_def)
  moreover have "replace_first (repo l pp) [] (amp_encode (pathname l)) = amp_encode rest"
    using encoded_path_strip[OF repo_prefix[OF assms, of pp] False] by (simp add: path)
  moreover have "count_list (pathname l) CHR ''&'' = count_list rest CHR ''&''"
    using False by (subst path) (simp add: count_list_0_iff)
  moreover have "length (pathname l) = length (repo l pp) + length rest"
    by (subst path) simp
  ultimately show ?thesis
    using False by (simp add: p_param_def length_amp_encode)
qed

lemma length_q_param:
  assumes "wf_route l"
  shows "length (q_param l) =
         (if search l = [] then 0 else length (search l) + 2 + 4 * count_list (search l) CHR ''&'')"
proof (cases "search l = []")
  case False
  with assms obtain c query where "search l = CHR ''?'' # c # query"
    by (rule wf_route_search)
  then show ?thesis
    by (simp add: q_param_def length_amp_encode)
qed (simp add: q_param_def)

text \<open>
  C32 (bounds).  The URL of the redirect is longer than the URL of the request
  by exactly four characters (\<open>/?\<close> and \<open>p=\<close>), by two more when
  there is a query (\<open>&q=\<close> for the \<open>?\<close>), by four for every
  \<open>&\<close> of the path and the query, and by the length of the prefix when
  the prefix holds an \<open>&\<close> and is therefore not removed.
\<close>

theorem redirect_url_length:
  assumes "wf_route l"
  shows "length (redirect_url l (repo l pp)) =
           length (href l) + 4 + (if search l = [] then 0 else 2) +
           4 * count_list (pathname l @ search l) CHR ''&'' +
           (if CHR ''&'' \<in> set (repo l pp) then length (repo l pp) else 0)"
  using length_p_param[OF assms, of pp] length_q_param[OF assms]
  by (simp add: redirect_url_def href_def)

theorem redirect_url_length_witness:
  "length (redirect_url amp_request ''/my-repo'') = length (href amp_request) + 14"
  using redirect_url_length[of amp_request "JBool True"]
  by (simp add: wf_route_def repo_def)

section \<open>Fragment and origin\<close>

text \<open>
  Both URLs that the program builds end with the fragment of the location,
  copied as it is.
\<close>

lemma fragment_kept:
  "suffix (hash l) (redirect_url l r) \<and> suffix (hash l) (resolve_url q l r)"
  by (simp add: redirect_url_def resolve_url_def suffix_def)

lemma redirect_same_origin: "prefix (origin l) (redirect_url l r)"
  by (simp add: redirect_url_def)

end
