(* ===== verification/Round_Trip.thy ===== *)
theory Round_Trip
  imports Ghspa
begin

text \<open>
  The round trip of \<open>redirect\<close> and \<open>resolve\<close> for every well-formed
  request, not only for those it restores: what the real document puts into
  the address bar (\<open>restored\<close>), that this is a well-formed location
  again, and the exact condition under which it is the location of the
  request (\<open>redirect_resolve_roundtrip_iff\<close>).  The last section is
  the round trip of the function body with an empty prefix
  (\<open>iife_root_roundtrip\<close>), the branch of line 22 that the call of line
  62 never takes.
\<close>

section \<open>The restored location\<close>

text \<open>
  What the round trip puts into the address bar: the prefix and the decoded
  \<open>p\<close> as the path, the decoded \<open>q\<close> as the query.
\<close>

abbreviation restored_path :: "location \<Rightarrow> string \<Rightarrow> string" where
  "restored_path l r \<equiv> r @ amp_decode (replace_first r [] (amp_encode (pathname l)))"

abbreviation restored_search :: "location \<Rightarrow> string" where
  "restored_search l \<equiv>
     (if search l = [] then []
      else query_suffix (Some (amp_decode (amp_encode (drop 1 (search l))))))"

abbreviation restored :: "location \<Rightarrow> string \<Rightarrow> location" where
  "restored l r \<equiv> l\<lparr>pathname := restored_path l r, search := restored_search l\<rparr>"

section \<open>The round trip, exactly\<close>

text \<open>
  The restored URL is the prefix, the decoded \<open>p\<close>, the decoded \<open>q\<close>
  behind a question mark, and the fragment.  No question mark occurs before
  the one in front of \<open>q\<close>, so the URL is the requested one exactly when
  the path part and the query part each are.
\<close>

lemma query_back_iff:
  assumes "wf_route l"
  shows "(if search l = [] then []
          else query_suffix (Some (amp_decode (amp_encode (drop 1 (search l)))))) = search l
         \<longleftrightarrow> amp_safe (drop 1 (search l))"
proof (cases "search l = []")
  case True
  then show ?thesis by simp
next
  case False
  with assms obtain c query where s: "search l = CHR ''?'' # c # query"
    by (rule wf_route_search)
  then have q: "drop 1 (search l) = c # query" by simp
  show ?thesis
  proof (cases "amp_safe (c # query)")
    case True
    from amp_roundtrip_safe[OF this] True show ?thesis
      unfolding q by (simp add: s del: amp_encode_Cons)
  next
    case False
    from amp_roundtrip_unsafe[OF this] False show ?thesis
      unfolding q by (simp add: s query_suffix_def del: amp_encode_Cons)
  qed
qed

lemma path_back_iff:
  assumes wf: "wf_route l" and pp: "truthy pp"
  shows "repo l pp @ amp_decode (replace_first (repo l pp) [] (amp_encode (pathname l))) = pathname l
         \<longleftrightarrow> CHR ''&'' \<notin> set (repo l pp) \<and> amp_safe (drop (length (repo l pp)) (pathname l))"
proof (cases "CHR ''&'' \<in> set (repo l pp)")
  case True
  let ?r = "repo l pp"
  have "count_list (?r @ amp_decode (amp_encode (pathname l))) CHR ''/'' =
        count_list ?r CHR ''/'' + count_list (pathname l) CHR ''/''"
    by (simp add: count_list_amp_decode count_list_amp_encode)
  moreover have "0 < count_list ?r CHR ''/''"
    by (simp add: repo_truthy[OF pp])
  ultimately have "?r @ amp_decode (amp_encode (pathname l)) \<noteq> pathname l"
    by (metis add_cancel_right_left less_numeral_extra(3))
  with True show ?thesis by (simp add: encoded_path_keep)
next
  case False
  let ?r = "repo l pp"
  let ?rest = "drop (length ?r) (pathname l)"
  have path: "?r @ ?rest = pathname l"
    using repo_prefix[OF wf] by simp
  have "amp_decode (replace_first ?r [] (amp_encode (pathname l))) = amp_decode (amp_encode ?rest)"
    using False repo_prefix[OF wf] by (simp add: encoded_path_strip)
  moreover have "?r @ amp_decode (amp_encode ?rest) = pathname l \<longleftrightarrow> amp_decode (amp_encode ?rest) = ?rest"
    using path by (metis same_append_eq)
  moreover have "amp_decode (amp_encode ?rest) = ?rest \<longleftrightarrow> amp_safe ?rest"
    using amp_roundtrip_safe amp_roundtrip_unsafe by blast
  ultimately show ?thesis using False by simp
qed


lemma decoded_path_chars:
  assumes "c \<notin> set path" and "c \<noteq> CHR ''&''" and "c \<notin> set ''~and~''"
  shows "c \<notin> set (amp_decode (replace_first r [] (amp_encode path)))"
proof -
  from assms have "c \<notin> set (amp_encode path)"
    by (auto simp: set_amp_encode)
  then have "c \<notin> set (replace_first r [] (amp_encode path))"
    by (simp add: replace_first_notin)
  with assms(2) set_amp_decode[of "replace_first r [] (amp_encode path)"] show ?thesis
    by auto
qed

lemma resolve_landing_restored:
  assumes "wf_route l"
  shows "resolve (landing l (repo l pp)) (repo (landing l (repo l pp)) pp) =
         HistoryReplaceState (restored_path l (repo l pp) @ restored_search l @ hash l)"
proof -
  from assms have nonempty: "pathname l \<noteq> []"
    by (auto elim: wf_route_pathname)
  show ?thesis
    by (simp only: resolve_landing[OF nonempty] repo_landing[OF assms] append_assoc)
qed

text \<open>
  The path of a well-formed location holds no \<open>?\<close>, and neither does what
  the decoder makes of it: the restored URL is the requested one exactly when
  it is so piece by piece, under every prefix without a \<open>?\<close>.
\<close>

lemma restored_pieces_iff:
  assumes wf: "wf_route l" and r: "CHR ''?'' \<notin> set r"
  shows "restored_path l r @ restored_search l @ hash l = pathname l @ search l @ hash l
         \<longleftrightarrow> restored_path l r = pathname l \<and> restored_search l = search l"
proof -
  from wf have path: "CHR ''?'' \<notin> set (pathname l)"
    and search: "search l = [] \<or> hd (search l) = CHR ''?''"
    by (auto simp: wf_route_def prefix_def)
  from path have "CHR ''?'' \<notin> set (amp_decode (replace_first r [] (amp_encode (pathname l))))"
    by (rule decoded_path_chars) simp_all
  with r have mark: "CHR ''?'' \<notin> set (restored_path l r)"
    by simp
  show ?thesis
    using append_eq_at_mark[OF _ mark path _ search, of "restored_search l"] query_suffix_mark
    by (auto simp flip: append_assoc)
qed

lemma restored_url_iff:
  assumes wf: "wf_route l" and pp: "truthy pp"
  shows "resolve (landing l (repo l pp)) (repo (landing l (repo l pp)) pp) =
           HistoryReplaceState (pathname l @ search l @ hash l)
         \<longleftrightarrow> CHR ''&'' \<notin> set (repo l pp) \<and>
             amp_safe (drop (length (repo l pp)) (pathname l)) \<and>
             amp_safe (drop 1 (search l))"
proof -
  from wf have "CHR ''?'' \<notin> set (pathname l)"
    by (simp add: wf_route_def)
  with set_mono_prefix[OF repo_prefix[OF wf, of pp]] have "CHR ''?'' \<notin> set (repo l pp)"
    by auto
  from restored_pieces_iff[OF wf this] show ?thesis
    by (simp only: resolve_landing_restored[OF wf] effect.inject path_back_iff[OF wf pp]
        query_back_iff[OF wf]) blast
qed

lemma restored_search_shape:
  "restored_search l = [] \<or> prefix ''?'' (restored_search l) \<and> 2 \<le> length (restored_search l)"
  by (auto simp: query_suffix_def Suc_le_eq)

lemma wf_route_restored:
  assumes wf: "wf_route l" and pp: "truthy pp"
  shows "wf_route (restored l (repo l pp))"
proof -
  let ?r = "repo l pp"
  from wf have chars: "CHR ''?'' \<notin> set (pathname l)" "CHR ''#'' \<notin> set (pathname l)"
    "CHR ''#'' \<notin> set (search l)"
    by (simp_all add: wf_route_def)
  from set_mono_prefix[OF repo_prefix[OF wf, of pp]] chars
  have "CHR ''?'' \<notin> set ?r" "CHR ''#'' \<notin> set ?r" by auto
  moreover have "CHR ''?'' \<notin> set (amp_decode (replace_first ?r [] (amp_encode (pathname l))))"
    "CHR ''#'' \<notin> set (amp_decode (replace_first ?r [] (amp_encode (pathname l))))"
    using chars by (simp_all add: decoded_path_chars)
  moreover have "CHR ''#'' \<notin> set (restored_search l)"
    using chars(3) decoded_query_chars[of "CHR ''#''" "drop 1 (search l)"]
    by (auto simp: query_suffix_def dest: in_set_dropD)
  moreover have "prefix ''/'' ?r"
    by (simp add: repo_truthy[OF pp])
  ultimately show ?thesis
    using wf restored_search_shape[of l]
    by (simp add: wf_route_def prefix_def) auto
qed

lemma restored_no_network_path:
  assumes "wf_route l" and "truthy pp" and "repo l pp \<noteq> ''/''"
  shows "\<not> prefix ''//'' (restored_path l (repo l pp))"
  by (rule repo_single_slash(2)[OF assms])

lemma restored_eq_iff:
  "restored l r = l \<longleftrightarrow> restored_path l r = pathname l \<and> restored_search l = search l"
  by (cases l) auto

lemma restored_request_iff:
  assumes "wf_route l" and "truthy pp"
  shows "restored l (repo l pp) = l \<longleftrightarrow>
           CHR ''&'' \<notin> set (repo l pp) \<and>
           amp_safe (drop (length (repo l pp)) (pathname l)) \<and>
           amp_safe (drop 1 (search l))"
  using path_back_iff[OF assms] query_back_iff[OF assms(1)]
  by (simp add: restored_eq_iff)

text \<open>
  C13 (roundtrip).  The conditions of the round trip are exact.  For a well
  formed request, the program on the real document restores the requested
  path, query and fragment if and only if the first segment of the path holds
  no \<open>&\<close> and the rest of the path and the query are \<open>amp_safe\<close>.
\<close>

theorem redirect_resolve_roundtrip_iff:
  assumes "wf_route l" and "title \<noteq> ''404''"
  shows "ghspa title (landing l (repo l (JBool True))) w =
           HistoryReplaceState (pathname l @ search l @ hash l)
         \<longleftrightarrow> CHR ''&'' \<notin> set (repo l (JBool True)) \<and>
             amp_safe (drop (length (repo l (JBool True))) (pathname l)) \<and>
             amp_safe (drop 1 (search l))"
  using assms by (simp add: ghspa_dispatch restored_url_iff)

theorem redirect_resolve_roundtrip_iff_witness:
  "ghspa ''Home'' (landing (scenario\<lparr>pathname := ''/my-repo/a~and~b''\<rparr>) ''/my-repo'') JUndefined
     \<noteq> HistoryReplaceState ''/my-repo/a~and~b?x=1#top''"
  using redirect_resolve_roundtrip_iff
    [of "scenario\<lparr>pathname := ''/my-repo/a~and~b''\<rparr>" "''Home''" JUndefined]
  by (simp add: wf_route_def repo_def amp_safe_def gh_eval)

text \<open>
  C28 (roundtrip).  The body of the script with a flag that is not truthy, as
  line 22 has it when the argument of line 62 does not reach it: the prefix is
  empty, the script restores the whole path from the root of the domain, and
  it restores the requested path, query and fragment if and only if the path
  and the query are \<open>amp_safe\<close>.  No condition on the first segment
  remains.
\<close>

theorem iife_root_roundtrip:
  assumes "wf_route l" and "title \<noteq> ''404''" and "\<not> truthy pp"
  shows "ghspa_iife title (landing l (repo l pp)) pp =
           HistoryReplaceState (pathname l @ search l @ hash l)
         \<longleftrightarrow> amp_safe (pathname l) \<and> amp_safe (drop 1 (search l))"
proof -
  from assms(1) have nonempty: "pathname l \<noteq> []"
    by (auto simp: wf_route_def)
  have "amp_decode (amp_encode (pathname l)) = pathname l \<longleftrightarrow> amp_safe (pathname l)"
    using amp_roundtrip_safe amp_roundtrip_unsafe by blast
  with restored_pieces_iff[OF assms(1), of "[]"] query_back_iff[OF assms(1)] assms(2,3)
  show ?thesis
    by (simp add: ghspa_iife_def resolve_landing[OF nonempty])
qed

theorem iife_root_roundtrip_witness:
  "ghspa_iife ''Home'' (landing scenario []) (JBool False) =
     HistoryReplaceState ''/my-repo/docs/intro?x=1#top''"
  using iife_root_roundtrip[of scenario "''Home''" "JBool False"]
  by (simp add: wf_route_def amp_safe_def gh_eval)

end
