(* ===== verification/URL_Parser.thy ===== *)
theory URL_Parser
  imports Location
begin

text \<open>
  The browser's reading of URLs, as far as the two effects of the program
  exercise it.  None of this is code of the repository: it follows the
  specification's external interfaces and the URL standard.

  \<^item> \<open>parse_route\<close> splits the text after the authority of a URL into
    \<open>pathname\<close>, \<open>search\<close> and \<open>hash\<close> as \<open>window.location\<close> shows
    them: an empty path of a hierarchical URL is \<open>/\<close>; a query or a
    fragment that is empty shows as the empty string.
  \<^item> \<open>parse_url\<close> reads an absolute URL \<open>scheme://host[:port]route\<close>.
    \<open>None\<close> marks a text outside this shape.  The model does no
    percent-encoding, no removal of dot segments and no case folding, and
    knows no user information and no bracketed host: a well-formed location
    (\<open>wf_location\<close>) is one these steps leave alone.
  \<^item> \<open>resolve_reference\<close> resolves the URL argument of \<open>replaceState\<close>
    against the current location, for the references that start with a slash
    (\<open>//authority...\<close> and \<open>/path...\<close>); the program produces no
    other.  \<open>replace_state\<close> adds the same-origin check: a URL of another
    origin makes \<open>replaceState\<close> throw a \<open>SecurityError\<close> and leaves the
    address as it is.

  The lemmas show that parsing inverts serialisation on well-formed locations
  (\<open>parse_url_href\<close>), that every location the parser returns is well
  formed (\<open>parse_url_wf\<close>, \<open>replace_state_wf\<close>), what
  \<open>replaceState\<close> does with a reference that is a route
  (\<open>replace_state_route\<close>, \<open>replace_state_route_ref\<close>) or names a
  host (\<open>replace_state_network_path\<close>), and that the fragment of a
  parsed URL is the text from its first \<open>#\<close>
  (\<open>replace_state_fragment\<close>).
\<close>

section \<open>Definitions\<close>

datatype browser_error = SecurityError | NotModelled

definition route_char :: "char \<Rightarrow> bool" where
  "route_char c \<longleftrightarrow> c \<noteq> CHR ''?'' \<and> c \<noteq> CHR ''#''"

definition parse_route :: "string \<Rightarrow> string \<times> string \<times> string" where
  "parse_route s =
     (let path = takeWhile route_char s;
          rest = dropWhile route_char s;
          query = takeWhile (\<lambda>c. c \<noteq> CHR ''#'') rest;
          fragment = dropWhile (\<lambda>c. c \<noteq> CHR ''#'') rest
      in (if path = [] then ''/'' else path,
          if length query < 2 then [] else query,
          if length fragment < 2 then [] else fragment))"

definition host_char :: "char \<Rightarrow> bool" where
  "host_char c \<longleftrightarrow> c \<notin> set ''/?#''"

definition parse_url :: "string \<Rightarrow> location option" where
  "parse_url u =
     (let scheme = takeWhile (\<lambda>c. c \<noteq> CHR '':'') u;
          rest = dropWhile (\<lambda>c. c \<noteq> CHR '':'') u;
          after = drop 3 rest;
          auth = takeWhile host_char after;
          host = takeWhile (\<lambda>c. c \<noteq> CHR '':'') auth;
          digits = drop 1 (dropWhile (\<lambda>c. c \<noteq> CHR '':'') auth)
      in if scheme = [] \<or> \<not> list_all authority_char scheme \<or> \<not> prefix ''://'' rest
            \<or> host = [] \<or> \<not> list_all digit_char digits
         then None
         else (case parse_route (dropWhile host_char after) of
                 (p, s, h) \<Rightarrow>
                   Some \<lparr>protocol = scheme @ '':'', hostname = host,
                         port = (if digits = default_port scheme then [] else digits),
                         pathname = p, search = s, hash = h\<rparr>))"

definition resolve_reference :: "location \<Rightarrow> string \<Rightarrow> browser_error + location" where
  "resolve_reference base ref =
     (if prefix ''//'' ref
      then (case parse_url (protocol base @ ref) of
              None \<Rightarrow> Inl NotModelled
            | Some l \<Rightarrow> Inr l)
      else if prefix ''/'' ref
      then (case parse_route ref of
              (p, s, h) \<Rightarrow> Inr (base\<lparr>pathname := p, search := s, hash := h\<rparr>))
      else Inl NotModelled)"

definition replace_state :: "location \<Rightarrow> string \<Rightarrow> browser_error + location" where
  "replace_state cur ref =
     (case resolve_reference cur ref of
        Inl e \<Rightarrow> Inl e
      | Inr l \<Rightarrow> if origin l = origin cur then Inr l else Inl SecurityError)"

section \<open>Parsing what a location serialises to\<close>

lemma wf_route_chars:
  assumes "wf_route l"
  shows "\<forall>x \<in> set (pathname l). route_char x"
    and "\<forall>x \<in> set (search l). x \<noteq> CHR ''#''"
    and "search l @ hash l = [] \<or> \<not> route_char (hd (search l @ hash l))"
    and "hash l = [] \<or> \<not> hd (hash l) \<noteq> CHR ''#''"
  using assms by (auto simp: wf_route_def route_char_def prefix_Cons_iff)

lemma wf_route_lengths:
  assumes "wf_route l"
  shows "pathname l \<noteq> []"
    and "length (search l) < 2 \<longleftrightarrow> search l = []"
    and "length (hash l) < 2 \<longleftrightarrow> hash l = []"
  using assms by (auto simp: wf_route_def)

lemma parse_route_wf:
  assumes "wf_route l"
  shows "parse_route (pathname l @ search l @ hash l) = (pathname l, search l, hash l)"
proof -
  note chars = wf_route_chars[OF assms]
  have "takeWhile route_char (pathname l @ search l @ hash l) = pathname l"
    and "dropWhile route_char (pathname l @ search l @ hash l) = search l @ hash l"
    by (rule takeWhile_stop[OF chars(1,3)], rule dropWhile_stop[OF chars(1,3)])
  moreover have "takeWhile (\<lambda>c. c \<noteq> CHR ''#'') (search l @ hash l) = search l"
    and "dropWhile (\<lambda>c. c \<noteq> CHR ''#'') (search l @ hash l) = hash l"
    by (rule takeWhile_stop[OF chars(2,4)], rule dropWhile_stop[OF chars(2,4)])
  ultimately show ?thesis
    by (simp add: parse_route_def Let_def wf_route_lengths[OF assms])
qed

lemma wf_origin_scheme:
  assumes "wf_origin l"
  obtains scheme where "protocol l = scheme @ '':''" and "scheme \<noteq> []"
    and "list_all authority_char scheme"
    and "port l = [] \<or> port l \<noteq> default_port scheme"
proof
  from assms show "protocol l = butlast (protocol l) @ '':''"
    by (metis append_butlast_last_id wf_origin_def)
  from assms show "butlast (protocol l) \<noteq> []"
    and "list_all authority_char (butlast (protocol l))"
    and "port l = [] \<or> port l \<noteq> default_port (butlast (protocol l))"
    by (simp_all add: wf_origin_def)
qed

lemma authority_char_host:
  "authority_char c \<Longrightarrow> c \<noteq> CHR '':'' \<and> host_char c"
  by (auto simp: authority_char_def host_char_def)

lemma digit_char_host: "digit_char c \<Longrightarrow> host_char c"
  by (auto simp: digit_char_def host_char_def)

lemma host_char_simps [simp]:
  "host_char CHR '':''"
  "\<not> host_char CHR ''/''"
  by (auto simp: host_char_def)

lemma authority_chars:
  assumes "list_all authority_char s"
  shows "\<forall>x \<in> set s. x \<noteq> CHR '':''" and "\<forall>x \<in> set s. host_char x"
  using assms by (auto simp: list_all_iff dest: authority_char_host)

lemma parse_url_origin_route:
  assumes wf: "wf_origin l" and route: "prefix ''/'' route"
  shows "parse_url (origin l @ route) =
         (case parse_route route of
            (p, s, h) \<Rightarrow> Some (l\<lparr>pathname := p, search := s, hash := h\<rparr>))"
proof -
  from wf obtain scheme where scheme: "protocol l = scheme @ '':''" "scheme \<noteq> []"
    "list_all authority_char scheme" "port l = [] \<or> port l \<noteq> default_port scheme"
    by (rule wf_origin_scheme)
  define portpart where "portpart = (if port l \<noteq> [] then '':'' @ port l else [])"
  define after where "after = hostname l @ portpart @ route"
  from wf have host: "hostname l \<noteq> []" "list_all authority_char (hostname l)"
    and digits: "list_all digit_char (port l)"
    by (simp_all add: wf_origin_def)
  have url: "origin l @ route = scheme @ CHR '':'' # ''//'' @ after"
    by (simp add: origin_def scheme(1) after_def portpart_def)
  have 1: "takeWhile (\<lambda>c. c \<noteq> CHR '':'') (origin l @ route) = scheme"
    and 2: "dropWhile (\<lambda>c. c \<noteq> CHR '':'') (origin l @ route) = CHR '':'' # ''//'' @ after"
    unfolding url using authority_chars(1)[OF scheme(3)]
    by (simp_all add: takeWhile_append_sep dropWhile_append_sep)
  have "\<forall>x \<in> set (hostname l @ portpart). host_char x"
    using authority_chars(2)[OF host(2)] digits
    by (auto simp: portpart_def list_all_iff dest: digit_char_host)
  moreover from route have "route = [] \<or> \<not> host_char (hd route)"
    by (auto simp: prefix_Cons_iff)
  ultimately have 3: "takeWhile host_char after = hostname l @ portpart"
    and 4: "dropWhile host_char after = route"
    unfolding after_def append_assoc[symmetric]
    by (rule takeWhile_stop, rule dropWhile_stop)
  have "\<forall>x \<in> set (hostname l). x \<noteq> CHR '':''"
    by (rule authority_chars(1)[OF host(2)])
  moreover have "portpart = [] \<or> \<not> hd portpart \<noteq> CHR '':''"
    by (simp add: portpart_def)
  ultimately have 5: "takeWhile (\<lambda>c. c \<noteq> CHR '':'') (hostname l @ portpart) = hostname l"
    and 6: "dropWhile (\<lambda>c. c \<noteq> CHR '':'') (hostname l @ portpart) = portpart"
    by (rule takeWhile_stop, rule dropWhile_stop)
  have 7: "drop 1 portpart = port l"
    by (simp add: portpart_def)
  show ?thesis
    unfolding parse_url_def Let_def 1 2
    using scheme(1,2,3,4) host(1) digits
    by (auto simp: 3 4 5 6 7[simplified] split: prod.splits)
qed

lemma parse_url_href:
  assumes "wf_location l"
  shows "parse_url (href l) = Some l"
proof -
  from assms have "wf_origin l" and route: "wf_route l"
    by (simp_all add: wf_location_def)
  moreover have "prefix ''/'' (pathname l @ search l @ hash l)"
    using route by (auto simp: wf_route_def prefix_def)
  ultimately show ?thesis
    by (simp add: href_def parse_url_origin_route parse_route_wf)
qed

section \<open>What the parser returns\<close>

text \<open>
  Whatever text it is given, the parser returns a well-formed location or
  nothing.
\<close>

lemma parse_route_starts:
  assumes "s = [] \<or> hd s \<in> set ''/?#''"
  shows "case parse_route s of (p, q, h) \<Rightarrow>
           prefix ''/'' p \<and> CHR ''?'' \<notin> set p \<and> CHR ''#'' \<notin> set p \<and>
           (q = [] \<or> prefix ''?'' q \<and> 2 \<le> length q) \<and> CHR ''#'' \<notin> set q \<and>
           (h = [] \<or> prefix ''#'' h \<and> 2 \<le> length h)"
proof -
  let ?path = "takeWhile route_char s"
  let ?rest = "dropWhile route_char s"
  let ?query = "takeWhile (\<lambda>c. c \<noteq> CHR ''#'') ?rest"
  let ?frag = "dropWhile (\<lambda>c. c \<noteq> CHR ''#'') ?rest"
  have path: "\<forall>c \<in> set ?path. route_char c"
    by (auto dest: set_takeWhileD)
  from assms have start: "?path = [] \<or> prefix ''/'' ?path"
    by (cases s) (auto simp: route_char_def)
  have rest: "?rest = [] \<or> hd ?rest = CHR ''?'' \<or> hd ?rest = CHR ''#''"
    using hd_dropWhile[of route_char s] by (auto simp: route_char_def)
  have query: "?query = [] \<or> prefix ''?'' ?query"
  proof (cases ?rest)
    case Nil
    show ?thesis unfolding Nil by simp
  next
    case (Cons c cs)
    with rest show ?thesis by auto
  qed
  have frag: "?frag = [] \<or> prefix ''#'' ?frag"
    using hd_dropWhile[of "\<lambda>c. c \<noteq> CHR ''#''" ?rest] by (cases ?frag) auto
  have "CHR ''#'' \<notin> set ?query"
    by (auto dest: set_takeWhileD)
  with path start query frag show ?thesis
    by (auto simp: parse_route_def Let_def route_char_def)
qed


lemma wf_route_parse_route:
  assumes "s = [] \<or> hd s \<in> set ''/?#''" and "parse_route s = (p, q, h)"
  shows "wf_route (l\<lparr>pathname := p, search := q, hash := h\<rparr>)"
  using parse_route_starts[OF assms(1)] assms(2) by (simp add: wf_route_def)

lemma host_chars_authority:
  assumes "\<forall>c \<in> set s. host_char c" and "CHR '':'' \<notin> set s"
  shows "list_all authority_char s"
  using assms by (auto simp: list_all_iff host_char_def authority_char_def)

lemma parse_url_wf:
  assumes "parse_url u = Some l"
  shows "wf_location l"
proof -
  define scheme where "scheme = takeWhile (\<lambda>c. c \<noteq> CHR '':'') u"
  define after where "after = drop 3 (dropWhile (\<lambda>c. c \<noteq> CHR '':'') u)"
  define auth where "auth = takeWhile host_char after"
  define host where "host = takeWhile (\<lambda>c. c \<noteq> CHR '':'') auth"
  define digits where "digits = drop 1 (dropWhile (\<lambda>c. c \<noteq> CHR '':'') auth)"
  obtain p q h where route: "parse_route (dropWhile host_char after) = (p, q, h)"
    by (cases "parse_route (dropWhile host_char after)")
  from assms have ok: "scheme \<noteq> []" "list_all authority_char scheme" "host \<noteq> []"
    "list_all digit_char digits"
    and l: "l = \<lparr>protocol = scheme @ '':'', hostname = host,
         port = (if digits = default_port scheme then [] else digits),
         pathname = p, search = q, hash = h\<rparr>"
    unfolding parse_url_def Let_def scheme_def[symmetric] after_def[symmetric]
      auth_def[symmetric] host_def[symmetric] digits_def[symmetric]
    by (auto simp: route split: if_splits)
  have "\<forall>c \<in> set host. host_char c"
    unfolding host_def auth_def by (auto dest!: set_takeWhileD)
  moreover have "CHR '':'' \<notin> set host"
    unfolding host_def by simp
  ultimately have "list_all authority_char host"
    by (rule host_chars_authority)
  with ok have "wf_origin l"
    by (simp add: l wf_origin_def)
  moreover have "dropWhile host_char after = [] \<or> hd (dropWhile host_char after) \<in> set ''/?#''"
    using hd_dropWhile[of host_char after] by (auto simp: host_char_def)
  from wf_route_parse_route[OF this route, of l] have "wf_route l"
    by (simp add: l)
  ultimately show ?thesis by (simp add: wf_location_def)
qed

section \<open>Where replaceState leads\<close>

lemma replace_state_route:
  assumes "wf_route target" and "\<not> prefix ''//'' (pathname target)"
  shows "replace_state cur (pathname target @ search target @ hash target) =
         Inr (cur\<lparr>pathname := pathname target, search := search target, hash := hash target\<rparr>)"
proof -
  from assms(1) obtain rest where rest: "pathname target = CHR ''/'' # rest"
    by (rule wf_route_pathname)
  have "\<not> prefix ''//'' (pathname target @ search target @ hash target)"
  proof (cases rest)
    case Nil
    with rest wf_route_chars(3)[OF assms(1)] show ?thesis
      by (cases "search target @ hash target") (auto simp: route_char_def)
  next
    case Cons
    with rest assms(2) show ?thesis by simp
  qed
  moreover have "prefix ''/'' (pathname target @ search target @ hash target)"
    using rest by simp
  ultimately
  show ?thesis
    by (simp add: replace_state_def resolve_reference_def parse_route_wf[OF assms(1)])
qed

text \<open>
  A reference that starts with one slash and not with two names a path of the
  current origin: \<open>replaceState\<close> accepts it, whatever follows.
\<close>

lemma replace_state_route_ref:
  assumes "prefix ''/'' ref" and "\<not> prefix ''//'' ref"
  shows "replace_state cur ref \<noteq> Inl e"
  using assms
  by (auto simp: replace_state_def resolve_reference_def split: prod.splits)

lemma replace_state_network_path:
  assumes "prefix ''//'' ref" and "parse_url (protocol cur @ ref) = Some t"
    and "origin t \<noteq> origin cur"
  shows "replace_state cur ref = Inl SecurityError"
  using assms by (simp add: replace_state_def resolve_reference_def)

lemma replace_state_same_origin:
  "replace_state cur ref = Inr l \<Longrightarrow> origin l = origin cur"
  by (auto simp: replace_state_def split: sum.splits if_splits)

lemma replace_state_wf:
  assumes "wf_location cur" and "replace_state cur ref = Inr l"
  shows "wf_location l"
proof (cases "prefix ''//'' ref")
  case True
  with assms(2) obtain t where "parse_url (protocol cur @ ref) = Some t" "l = t"
    by (auto simp: replace_state_def resolve_reference_def split: option.splits if_splits)
  then show ?thesis by (simp add: parse_url_wf)
next
  case False
  with assms(2) obtain p q h where slash: "prefix ''/'' ref"
    and route: "parse_route ref = (p, q, h)"
    and l: "l = cur\<lparr>pathname := p, search := q, hash := h\<rparr>"
    by (auto simp: replace_state_def resolve_reference_def split: if_splits prod.splits)
  from slash have "ref = [] \<or> hd ref \<in> set ''/?#''"
    by (auto simp: prefix_def)
  from wf_route_parse_route[OF this route, of cur] assms(1) show ?thesis
    by (simp add: l wf_location_def)
qed

section \<open>The fragment of a parsed URL\<close>

text \<open>
  The fragment starts at the first \<open>#\<close>.  When a URL ends with a
  fragment as a location holds it, and has no \<open>#\<close> before, the parser
  returns that fragment, whatever it makes of the rest.
\<close>

lemma parse_route_fragment:
  assumes "CHR ''#'' \<notin> set a" and "h = [] \<or> prefix ''#'' h \<and> 2 \<le> length h"
  shows "snd (snd (parse_route (a @ h))) = h"
proof -
  from assms(2) have mark: "h = [] \<or> \<not> route_char (hd h)" "h = [] \<or> \<not> hd h \<noteq> CHR ''#''"
    by (auto simp: route_char_def prefix_Cons_iff)
  from assms(1) have "CHR ''#'' \<notin> set (dropWhile route_char a)"
    by (auto dest: set_dropWhileD)
  then have "dropWhile (\<lambda>c. c \<noteq> CHR ''#'') (dropWhile route_char a @ h) = h"
    using mark(2) by (intro dropWhile_stop) auto
  with assms(2) show ?thesis
    by (auto simp: parse_route_def Let_def dropWhile_append_mark[where P = route_char, OF mark(1)])
qed

lemma parse_url_fragment:
  assumes parsed: "parse_url (b @ h) = Some t"
    and b: "CHR ''#'' \<notin> set b" "CHR '':'' \<in> set b"
    and h: "h = [] \<or> prefix ''#'' h \<and> 2 \<le> length h"
  shows "hash t = h"
proof -
  let ?rest = "dropWhile (\<lambda>c. c \<noteq> CHR '':'') b"
  from h have mark: "h = [] \<or> \<not> host_char (hd h)"
    by (auto simp: host_char_def prefix_Cons_iff)
  from b(2) have rest: "dropWhile (\<lambda>c. c \<noteq> CHR '':'') (b @ h) = ?rest @ h"
    by (simp add: dropWhile_append1)
  from parsed have "prefix ''://'' (?rest @ h)"
    by (auto simp: parse_url_def Let_def rest split: if_splits)
  moreover from b(1) have clean: "CHR ''#'' \<notin> set ?rest"
    by (auto dest: set_dropWhileD)
  ultimately have "3 \<le> length ?rest"
    using h by (cases ?rest rule: list.exhaust; cases "tl ?rest"; cases "tl (tl ?rest)")
      (auto simp: prefix_Cons_iff)
  then have after: "drop 3 (?rest @ h) = drop 3 ?rest @ h"
    by simp
  from clean have "CHR ''#'' \<notin> set (dropWhile host_char (drop 3 ?rest))"
    by (auto dest: set_dropWhileD in_set_dropD)
  from parse_route_fragment[OF this h]
  have "snd (snd (parse_route (dropWhile host_char
      (drop 3 (dropWhile (\<lambda>c. c \<noteq> CHR '':'') (b @ h)))))) = h"
    by (simp only: rest after dropWhile_append_mark[where P = host_char, OF mark])
  with parsed show ?thesis
    by (auto simp: parse_url_def Let_def simp del: drop_append
        split: if_splits prod.splits)
qed

lemma replace_state_fragment:
  assumes "replace_state cur (a @ h) = Inr l'"
    and "CHR ''#'' \<notin> set a" and "wf_origin cur"
    and "h = [] \<or> prefix ''#'' h \<and> 2 \<le> length h"
  shows "hash l' = h"
proof (cases "prefix ''//'' (a @ h)")
  case True
  from assms(3) obtain scheme where scheme: "protocol cur = scheme @ '':''"
    "list_all authority_char scheme"
    by (rule wf_origin_scheme)
  then have "CHR ''#'' \<notin> set (protocol cur @ a)" "CHR '':'' \<in> set (protocol cur @ a)"
    using assms(2) by (auto simp: list_all_iff authority_char_def)
  from parse_url_fragment[OF _ this assms(4)] True assms(1) show ?thesis
    by (auto simp: replace_state_def resolve_reference_def split: option.splits if_splits)
next
  case False
  with assms(1) parse_route_fragment[OF assms(2,4)] show ?thesis
    by (auto simp: replace_state_def resolve_reference_def split: prod.splits if_splits)
qed

end
