(* ===== verification/Browser.thy ===== *)
theory Browser
  imports Round_Trip URL_Parser
begin

text \<open>
  The static host and the tab around the program: the script of theory
  \<open>Ghspa\<close> put together with the browser's reading of URLs of theory
  \<open>URL_Parser\<close>.  None of this is code of the repository: it follows the
  specification's external interfaces.

  \<^item> \<open>site\<close> is a static host: the paths under which it serves the real
    document, the title of that document, and the value the page gives
    \<open>window.projectPages\<close>.  Every other path gets the fallback document,
    whose title is \<open>404\<close>.  Both documents run the program.
  \<^item> \<open>page\<close> is the state of the tab: a document is being loaded at a
    location and will run the program (\<open>Running\<close>), the address is final
    (\<open>Settled\<close>), or the program's effect failed (\<open>Failed\<close>).
    \<open>apply_effect\<close> is what the browser does with the host call of the
    script, \<open>page_load\<close> one load, \<open>page_step\<close> the step relation of
    the machine, \<open>run n\<close> at most \<open>n\<close> loads in a row.

  The lemmas follow a request through its loads: where the redirect leads
  (\<open>fallback_redirect_lands\<close>), where the real document comes to rest
  (\<open>page_load_landing_restored\<close>), the request that ends in an exception
  (\<open>run_two_loads_network_path\<close>), the requests that are redirected for
  ever (\<open>stranded_run\<close>), the requests that never end in an exception
  (\<open>never_fails\<close>), and the invariant of every reachable page
  (\<open>reachable_at_origin\<close>, \<open>settled_same_origin\<close>).  The pages
  that \<open>reachable\<close> holds of are those that \<open>run\<close> computes
  (\<open>reachable_iff_run\<close>).
\<close>

section \<open>Definitions\<close>

record site =
  documents :: "string list"
  real_title :: string
  project_flag :: jsval

definition served_title :: "site \<Rightarrow> string \<Rightarrow> string" where
  "served_title st path = (if path \<in> set (documents st) then real_title st else ''404'')"

datatype page = Running location | Settled location | Failed browser_error

definition apply_effect :: "location \<Rightarrow> effect \<Rightarrow> page" where
  "apply_effect l e =
     (case e of
        LocationAssign u \<Rightarrow>
          (case parse_url u of None \<Rightarrow> Failed NotModelled | Some l' \<Rightarrow> Running l')
      | LocationReplace u \<Rightarrow>
          (case parse_url u of None \<Rightarrow> Failed NotModelled | Some l' \<Rightarrow> Running l')
      | HistoryPushState u \<Rightarrow>
          (case replace_state l u of Inl err \<Rightarrow> Failed err | Inr l' \<Rightarrow> Settled l')
      | HistoryReplaceState u \<Rightarrow>
          (case replace_state l u of Inl err \<Rightarrow> Failed err | Inr l' \<Rightarrow> Settled l')
      | NoEffect \<Rightarrow> Settled l)"

definition page_load :: "site \<Rightarrow> location \<Rightarrow> page" where
  "page_load st l = apply_effect l (ghspa (served_title st (pathname l)) l (project_flag st))"

fun run :: "nat \<Rightarrow> site \<Rightarrow> page \<Rightarrow> page" where
  "run 0 st p = p"
| "run (Suc n) st (Running l) = run n st (page_load st l)"
| "run (Suc n) st (Settled l) = Settled l"
| "run (Suc n) st (Failed e) = Failed e"

inductive page_step :: "site \<Rightarrow> page \<Rightarrow> page \<Rightarrow> bool" for st :: site where
  load: "page_step st (Running l) (page_load st l)"

inductive reachable :: "site \<Rightarrow> location \<Rightarrow> page \<Rightarrow> bool"
  for st :: site and l0 :: location where
  start: "reachable st l0 (Running l0)"
| step: "reachable st l0 p \<Longrightarrow> page_step st p p' \<Longrightarrow> reachable st l0 p'"

definition stranded :: "site \<Rightarrow> location \<Rightarrow> bool" where
  "stranded st l \<longleftrightarrow>
     wf_location l \<and> served_title st (pathname l) = ''404'' \<and>
     served_title st (repo l (JBool True) @ ''/'') = ''404''"

definition at_origin :: "location \<Rightarrow> page \<Rightarrow> bool" where
  "at_origin l0 p =
     (case p of
        Running l \<Rightarrow> wf_location l \<and> origin l = origin l0
      | Settled l \<Rightarrow> wf_location l \<and> origin l = origin l0
      | Failed e \<Rightarrow> True)"

text \<open>
  Three hosts for the examples: a project site, which serves the real
  document under \<open>/my-repo/\<close>; a site at the root of its domain that
  serves the real document also under \<open>//\<close>; and a site at the root of
  its domain with the flag set to \<open>false\<close>.
\<close>

abbreviation project_site :: site where
  "project_site \<equiv>
     \<lparr>documents = [''/my-repo/'', ''/my-repo/index.html''], real_title = ''Home'',
      project_flag = JUndefined\<rparr>"

abbreviation slash_site :: site where
  "slash_site \<equiv>
     \<lparr>documents = [''/'', ''//''], real_title = ''Home'', project_flag = JUndefined\<rparr>"

abbreviation about_request :: location where
  "about_request \<equiv>
     \<lparr>protocol = ''https:'', hostname = ''user.github.io'', port = [],
      pathname = ''/about'', search = [], hash = []\<rparr>"

abbreviation user_site :: site where
  "user_site \<equiv>
     \<lparr>documents = [''/'', ''/index.html''], real_title = ''Home'',
      project_flag = JBool False\<rparr>"

inductive_cases page_step_RunningE [elim!]: "page_step st (Running l) p"
inductive_cases page_step_SettledE [elim!]: "page_step st (Settled l) p"
inductive_cases page_step_FailedE [elim!]: "page_step st (Failed e) p"

text \<open>
  The two relations are executable: a step, and a page reached by a given
  number of steps, can be computed.
\<close>

code_pred (modes: i \<Rightarrow> i \<Rightarrow> o \<Rightarrow> bool, i \<Rightarrow> i \<Rightarrow> i \<Rightarrow> bool) page_step .

code_pred (modes: i \<Rightarrow> i \<Rightarrow> o \<Rightarrow> bool, i \<Rightarrow> i \<Rightarrow> i \<Rightarrow> bool) reachable .

section \<open>Where the redirect leads\<close>

lemma origin_landing [simp]: "origin (landing l r) = origin l"
  by (simp add: landing_def)

lemma redirect_url_href: "redirect_url l r = href (landing l r)"
  by (simp add: redirect_url_def href_def origin_def landing_def)

lemma param_chars:
  assumes "c \<notin> set (pathname l)" and "c \<notin> set (search l)" and "c \<notin> set ''p=&q~and''"
  shows "c \<notin> set (p_param l r)" and "c \<notin> set (q_param l)"
  using assms
  by (auto simp: p_param_def q_param_def set_amp_encode dest: in_set_dropD
      dest!: subsetD[OF set_replace_first] split: if_splits)

lemma wf_route_landing:
  assumes wf: "wf_route l" and r: "r = [] \<or> hd r = CHR ''/''" "\<forall>x \<in> set r. route_char x"
  shows "wf_route (landing l r)"
proof -
  from wf have "pathname l \<noteq> []"
    by (simp add: wf_route_lengths)
  then have "2 \<le> length (search (landing l r))"
    by (simp add: p_param_def)
  moreover have "CHR ''#'' \<notin> set (search (landing l r))"
    using wf param_chars[where c = "CHR ''#''" and l = l] by (simp add: wf_route_def)
  moreover have "prefix ''/'' (pathname (landing l r))"
    using r(1) by (cases r) simp_all
  moreover from r(2) have "CHR ''?'' \<notin> set r" "CHR ''#'' \<notin> set r"
    by (auto simp: route_char_def)
  ultimately show ?thesis
    using wf by (simp add: wf_route_def)
qed

lemma repo_route_chars:
  assumes "wf_route l"
  shows "repo l pp = [] \<or> hd (repo l pp) = CHR ''/''"
    and "\<forall>x \<in> set (repo l pp). route_char x"
proof -
  show "repo l pp = [] \<or> hd (repo l pp) = CHR ''/''"
    by (cases "truthy pp") (simp_all add: repo_wf[OF assms])
  from repo_prefix[OF assms, of pp] have "set (repo l pp) \<subseteq> set (pathname l)"
    by (rule set_mono_prefix)
  with wf_route_chars(1)[OF assms] show "\<forall>x \<in> set (repo l pp). route_char x"
    by auto
qed

lemma wf_location_landing:
  assumes "wf_location l"
  shows "wf_location (landing l (repo l pp))"
proof -
  from assms have "wf_route l" by (simp add: wf_location_def)
  then have "wf_route (landing l (repo l pp))"
    by (intro wf_route_landing repo_route_chars)
  with assms show ?thesis
    by (simp add: wf_location_def wf_origin_def)
qed

lemma parse_url_redirect:
  assumes "wf_location l"
  shows "parse_url (redirect_url l (repo l pp)) = Some (landing l (repo l pp))"
  unfolding redirect_url_href
  by (rule parse_url_href) (rule wf_location_landing[OF assms])

text \<open>
  C25 (functional).  On the fallback document the program navigates to a URL
  that the browser reads as \<open>landing\<close>: same protocol, host and port,
  the repository prefix and a slash as the path, \<open>p\<close> and \<open>q\<close> as the
  query, the fragment of the request.
\<close>

theorem fallback_redirect_lands:
  assumes "wf_location l"
  shows "\<exists>u. ghspa ''404'' l w = LocationReplace u \<and>
             parse_url u = Some (landing l (repo l (JBool True)))"
  using assms by (simp add: ghspa_dispatch parse_url_redirect)

theorem fallback_redirect_lands_witness:
  "ghspa ''404'' scenario JUndefined =
     LocationReplace ''https://user.github.io/my-repo/?p=/docs/intro&q=x=1#top'' \<and>
   parse_url ''https://user.github.io/my-repo/?p=/docs/intro&q=x=1#top'' =
     Some (scenario\<lparr>pathname := ''/my-repo/'', search := ''?p=/docs/intro&q=x=1''\<rparr>)"
  using fallback_redirect_lands[of scenario JUndefined]
  by (simp add: wf_location_eval ghspa_dispatch gh_defs)

section \<open>One load\<close>

lemma page_load_404:
  assumes "wf_location l" and "served_title st (pathname l) = ''404''"
  shows "page_load st l = Running (landing l (repo l (JBool True)))"
  using assms
  by (simp add: page_load_def ghspa_dispatch apply_effect_def parse_url_redirect)

lemma page_load_fallback:
  assumes "wf_location l" and "pathname l \<notin> set (documents st)"
  shows "page_load st l = Running (landing l (repo l (JBool True)))"
  using assms by (simp add: page_load_404 served_title_def)

lemma page_load_real:
  assumes "pathname l \<in> set (documents st)" and "real_title st \<noteq> ''404''"
  shows "page_load st l = apply_effect l (resolve l (repo l (JBool True)))"
  using assms by (simp add: page_load_def served_title_def ghspa_dispatch)

lemma landing_back [simp]:
  "(landing l r)\<lparr>pathname := pathname l, search := search l, hash := hash l\<rparr> = l"
  by (simp add: landing_def)

lemma first_segment_nonempty:
  assumes "wf_route l" and "truthy pp" and "repo l pp \<noteq> ''/''"
  shows "\<not> prefix ''//'' (pathname l)"
proof -
  from assms(1) obtain rest where "pathname l = CHR ''/'' # rest"
    by (rule wf_route_pathname)
  with assms(3) repo_first_segment[OF assms(2) this] show ?thesis
    by (cases rest) auto
qed

text \<open>
  The real document, loaded at the landing location, asks the browser to show
  the path, query and fragment of the request.  What the browser makes of it
  depends on the first segment of the path.
\<close>

lemma page_load_landing_effect:
  assumes route: "wf_route l"
    and real: "repo l (JBool True) @ ''/'' \<in> set (documents st)" "real_title st \<noteq> ''404''"
    and seg: "CHR ''&'' \<notin> set (repo l (JBool True))"
    and safe: "amp_safe (drop (length (repo l (JBool True))) (pathname l))"
      "amp_safe (drop 1 (search l))"
  shows "page_load st (landing l (repo l (JBool True))) =
         apply_effect (landing l (repo l (JBool True)))
           (HistoryReplaceState (pathname l @ search l @ hash l))"
proof -
  let ?L = "landing l (repo l (JBool True))"
  have "page_load st ?L = apply_effect ?L (resolve ?L (repo ?L (JBool True)))"
    using real by (simp add: page_load_real)
  also have "resolve ?L (repo ?L (JBool True)) =
      HistoryReplaceState (pathname l @ search l @ hash l)"
    using route seg safe by (rule redirect_resolve_path_query)
  finally show ?thesis .
qed

text \<open>
  When the first segment is not empty, the browser accepts the URL and the
  tab comes to rest at the restored location.
\<close>

lemma page_load_landing_restored:
  assumes wf: "wf_route l"
    and real: "repo l (JBool True) @ ''/'' \<in> set (documents st)" "real_title st \<noteq> ''404''"
    and seg: "repo l (JBool True) \<noteq> ''/''"
  shows "page_load st (landing l (repo l (JBool True))) =
         Settled (restored l (repo l (JBool True)))"
proof -
  let ?r = "repo l (JBool True)"
  let ?L = "landing l ?r"
  have "page_load st ?L = apply_effect ?L (resolve ?L (repo ?L (JBool True)))"
    using real by (simp add: page_load_real)
  also have "\<dots> = apply_effect ?L
      (HistoryReplaceState (restored_path l ?r @ restored_search l @ hash l))"
    by (simp only: resolve_landing_restored[OF wf])
  also have "\<dots> = Settled (restored l ?r)"
    using replace_state_route[OF wf_route_restored[OF wf, of "JBool True"], of ?L]
      restored_no_network_path[OF wf _ seg]
    by (simp add: apply_effect_def landing_def)
  finally show ?thesis .
qed

lemma page_load_landing:
  assumes wf: "wf_location l"
    and real: "repo l (JBool True) @ ''/'' \<in> set (documents st)" "real_title st \<noteq> ''404''"
    and seg: "repo l (JBool True) \<noteq> ''/''" "CHR ''&'' \<notin> set (repo l (JBool True))"
    and safe: "amp_safe (drop (length (repo l (JBool True))) (pathname l))"
      "amp_safe (drop 1 (search l))"
  shows "page_load st (landing l (repo l (JBool True))) = Settled l"
proof -
  from wf have route: "wf_route l" by (simp add: wf_location_def)
  show ?thesis
    using first_segment_nonempty[OF route _ seg(1)]
    by (simp add: page_load_landing_effect[OF route real seg(2) safe]
        apply_effect_def replace_state_route[OF route])
qed

lemma run_Settled [simp]: "run n st (Settled l) = Settled l"
  by (cases n) simp_all

lemma run_Failed [simp]: "run n st (Failed e) = Failed e"
  by (cases n) simp_all

lemma run_two_loads:
  assumes wf: "wf_location l"
    and fallback: "pathname l \<notin> set (documents st)"
    and real: "repo l (JBool True) @ ''/'' \<in> set (documents st)" "real_title st \<noteq> ''404''"
    and seg: "repo l (JBool True) \<noteq> ''/''" "CHR ''&'' \<notin> set (repo l (JBool True))"
    and safe: "amp_safe (drop (length (repo l (JBool True))) (pathname l))"
      "amp_safe (drop 1 (search l))"
  shows "run 2 st (Running l) = Settled l"
  using page_load_fallback[OF wf fallback] page_load_landing[OF wf real seg safe]
  by (simp add: numeral_2_eq_2)

lemma run_two_loads_restored:
  assumes "wf_location l"
    and "pathname l \<notin> set (documents st)"
    and "repo l (JBool True) @ ''/'' \<in> set (documents st)" "real_title st \<noteq> ''404''"
    and "repo l (JBool True) \<noteq> ''/''"
  shows "run 2 st (Running l) = Settled (restored l (repo l (JBool True)))"
proof -
  from assms(1) have "wf_route l" by (simp add: wf_location_def)
  from page_load_fallback[OF assms(1,2)] page_load_landing_restored[OF this assms(3-5)]
  show ?thesis by (simp add: numeral_2_eq_2)
qed

lemma run_add: "run (m + n) st p = run n st (run m st p)"
proof (induction m arbitrary: p)
  case (Suc m)
  then show ?case by (cases p) simp_all
qed simp

lemma run_more: "run m st p = Settled l \<Longrightarrow> run (n + m) st p = Settled l"
  by (simp add: add.commute[of n m] run_add)

lemma run_more_Failed: "run m st p = Failed e \<Longrightarrow> run (n + m) st p = Failed e"
  by (simp add: add.commute[of n m] run_add)

section \<open>A request whose path starts with two slashes\<close>

text \<open>
  The first segment of such a path is empty and the prefix is \<open>/\<close>.  The
  script on the real document passes the path of the request to
  \<open>replaceState\<close>, where it is a reference that names a host.
\<close>

lemma repo_double_slash:
  assumes "prefix ''//'' (pathname l)"
  shows "repo l (JBool True) = ''/''"
proof -
  from assms obtain rest where "pathname l = CHR ''/'' # CHR ''/'' # rest"
    by (auto simp: prefix_def)
  then show ?thesis
    by (simp add: repo_first_segment[of _ _ "CHR ''/'' # rest"])
qed

lemma run_two_loads_network_path:
  assumes wf: "wf_location l"
    and slashes: "prefix ''//'' (pathname l)"
    and fallback: "pathname l \<notin> set (documents st)"
    and real: "''//'' \<in> set (documents st)" "real_title st \<noteq> ''404''"
    and safe: "amp_safe (drop 1 (pathname l))" "amp_safe (drop 1 (search l))"
    and target: "parse_url (protocol l @ pathname l @ search l @ hash l) = Some t"
      "origin t \<noteq> origin l"
  shows "run 2 st (Running l) = Failed SecurityError"
proof -
  let ?L = "landing l (repo l (JBool True))"
  note repo = repo_double_slash[OF slashes]
  from wf have route: "wf_route l" by (simp add: wf_location_def)
  have "replace_state ?L (pathname l @ search l @ hash l) = Inl SecurityError"
    using slashes target
    by (intro replace_state_network_path[where t = t]) simp_all
  moreover have "page_load st ?L =
      apply_effect ?L (HistoryReplaceState (pathname l @ search l @ hash l))"
    using real safe by (intro page_load_landing_effect[OF route]) (simp_all add: repo)
  ultimately have "page_load st ?L = Failed SecurityError"
    by (simp add: apply_effect_def)
  with page_load_fallback[OF wf fallback] show ?thesis
    by (simp add: numeral_2_eq_2)
qed

section \<open>A site where the landing path is no document\<close>

text \<open>
  A request is \<open>stranded\<close> when the host answers both its path and the
  landing path with a document titled \<open>404\<close>.  The landing location of a
  stranded request is stranded again.
\<close>

lemma stranded_landing:
  assumes "stranded st l"
  shows "stranded st (landing l (repo l (JBool True)))"
proof -
  from assms have wf: "wf_location l" and route: "wf_route l"
    by (simp_all add: stranded_def wf_location_def)
  from assms show ?thesis
    by (simp add: stranded_def wf_location_landing[OF wf] repo_landing[OF route])
qed

lemma stranded_load:
  assumes "stranded st l"
  shows "page_load st l = Running (landing l (repo l (JBool True)))"
  using assms by (simp add: stranded_def page_load_404)

text \<open>
  Every redirect makes the query longer by at least three characters: the
  query of the landing location holds \<open>?p=\<close> and, after \<open>&q=\<close>, the
  whole query of the request.
\<close>

lemma search_landing_longer:
  assumes "wf_route l"
  shows "length (search l) + 3 \<le> length (search (landing l r))"
proof -
  from assms have "pathname l \<noteq> []" by (simp add: wf_route_lengths)
  then have "2 \<le> length (p_param l r)" by (simp add: p_param_def)
  moreover have "length (search l) \<le> length (q_param l)"
    by (auto simp: q_param_def length_amp_encode)
  ultimately show ?thesis by simp
qed

lemma stranded_run:
  assumes "stranded st l"
  shows "\<exists>l'. run n st (Running l) = Running l' \<and> stranded st l' \<and>
              length (search l) + 3 * n \<le> length (search l')"
  using assms
proof (induction n arbitrary: l)
  case 0
  then show ?case by simp
next
  case (Suc n)
  let ?l = "landing l (repo l (JBool True))"
  from Suc.prems have "stranded st ?l"
    by (rule stranded_landing)
  from Suc.IH[OF this] obtain l' where
    l': "run n st (Running ?l) = Running l'" "stranded st l'"
      "length (search ?l) + 3 * n \<le> length (search l')"
    by blast
  from Suc.prems have "wf_route l"
    by (simp add: stranded_def wf_location_def)
  then have "length (search l) + 3 \<le> length (search ?l)"
    by (rule search_landing_longer)
  with l' show ?case
    by (simp add: stranded_load[OF Suc.prems])
qed

section \<open>Same origin\<close>

lemma apply_effect_resolve_origin:
  "wf_location l \<Longrightarrow> origin l = origin l0 \<Longrightarrow>
   at_origin l0 (apply_effect l (resolve l r))"
  by (auto simp: at_origin_def apply_effect_def resolve_def Let_def
      dest: replace_state_same_origin replace_state_wf split: sum.splits)

lemma page_load_at_origin:
  assumes "wf_location l" and "origin l = origin l0"
  shows "at_origin l0 (page_load st l)"
proof (cases "served_title st (pathname l) = ''404''")
  case True
  with assms show ?thesis
    by (simp add: page_load_def ghspa_dispatch apply_effect_def parse_url_redirect
        at_origin_def wf_location_landing)
next
  case False
  with assms show ?thesis
    by (simp add: page_load_def ghspa_dispatch apply_effect_resolve_origin)
qed

lemma reachable_at_origin:
  assumes "reachable st l0 p" and "wf_location l0"
  shows "at_origin l0 p"
  using assms
proof (induction rule: reachable.induct)
  case start
  then show ?case by (simp add: at_origin_def)
next
  case (step p p')
  then show ?case
    by (cases p) (auto simp: at_origin_def intro: page_load_at_origin[unfolded at_origin_def])
qed

lemma run_reachable: "reachable st l0 p \<Longrightarrow> reachable st l0 (run n st p)"
proof (induction n st p rule: run.induct)
  case (2 n st l)
  then show ?case by (auto intro: reachable.step page_step.load)
qed simp_all

lemma reachable_iff_run: "reachable st l0 p \<longleftrightarrow> (\<exists>n. run n st (Running l0) = p)"
proof
  assume "reachable st l0 p"
  then show "\<exists>n. run n st (Running l0) = p"
  proof (induction rule: reachable.induct)
    case start
    have "run 0 st (Running l0) = Running l0" by simp
    then show ?case ..
  next
    case (step p p')
    then obtain n l where "run n st (Running l0) = Running l" "p' = page_load st l"
      by (auto elim: page_step.cases)
    then have "run (n + 1) st (Running l0) = p'"
      by (simp only: run_add) simp
    then show ?case ..
  qed
next
  assume "\<exists>n. run n st (Running l0) = p"
  with run_reachable[OF reachable.start, of st l0] show "reachable st l0 p" by auto
qed

section \<open>Requests that never end in an exception\<close>

text \<open>
  On the real document the script calls \<open>replaceState\<close> once and does
  not navigate: the load is the last one.
\<close>

lemma page_load_real_final:
  assumes "served_title st (pathname l) \<noteq> ''404''"
  shows "page_load st l \<noteq> Running l'"
  using assms
  by (auto simp: page_load_def ghspa_dispatch apply_effect_def resolve_def Let_def
      split: sum.splits)

text \<open>
  When the first segment of the path is not empty, every URL that
  \<open>resolve\<close> builds starts with one slash and the segment, and
  \<open>replaceState\<close> accepts it.
\<close>

lemma page_load_no_failure:
  assumes wf: "wf_location l" and seg: "repo l (JBool True) \<noteq> ''/''"
  shows "page_load st l \<noteq> Failed e"
proof (cases "served_title st (pathname l) = ''404''")
  case True
  with wf show ?thesis by (simp add: page_load_404)
next
  case False
  from wf have route: "wf_route l" by (simp add: wf_location_def)
  have "replace_state l (repo l (JBool True) @ x) \<noteq> Inl e" for x
    using repo_single_slash[OF route _ seg, of x] by (intro replace_state_route_ref) simp_all
  then have "apply_effect l (resolve l (repo l (JBool True))) \<noteq> Failed e"
    by (auto simp: apply_effect_def resolve_def resolve_url_def Let_def split: sum.splits)
  with False show ?thesis
    by (simp add: page_load_def ghspa_dispatch)
qed

text \<open>
  The redirect keeps the first segment, so the prefix is the same at every
  load of the tab.
\<close>

lemma reachable_same_prefix:
  assumes "reachable st l0 p" and "wf_location l0" and "repo l0 (JBool True) \<noteq> ''/''"
  shows "(\<forall>l. p = Running l \<longrightarrow> wf_location l \<and> repo l (JBool True) = repo l0 (JBool True))
         \<and> (\<forall>e. p \<noteq> Failed e)"
  using assms
proof (induction rule: reachable.induct)
  case start
  then show ?case by simp
next
  case (step p p')
  from step.IH[OF step.prems] step.hyps(2) obtain l where p: "p = Running l"
    and wf: "wf_location l" and r: "repo l (JBool True) = repo l0 (JBool True)"
    and p': "p' = page_load st l"
    by (cases p) auto
  from wf have route: "wf_route l" by (simp add: wf_location_def)
  show ?case
  proof (cases "served_title st (pathname l) = ''404''")
    case True
    from wf_location_landing[OF wf, of "JBool True"] repo_landing[OF route, of "JBool True"]
    show ?thesis
      by (simp add: p' page_load_404[OF wf True] r)
  next
    case False
    from page_load_real_final[OF False] page_load_no_failure[OF wf, of st] r step.prems(2)
    show ?thesis
      by (simp add: p')
  qed
qed

text \<open>
  C22 (safety).  A well-formed request whose path has a non-empty first
  segment never ends in an exception, whatever the host serves, whatever the
  path and the query hold, and however often the program redirects: the URL
  handed to \<open>replaceState\<close> starts with the first segment, which the
  redirects keep.  An exception needs an empty first segment: a path that is
  \<open>/\<close> alone or one that starts with \<open>//\<close>.
\<close>

theorem never_fails:
  assumes "reachable st l0 p" and "wf_location l0" and "repo l0 (JBool True) \<noteq> ''/''"
  shows "p \<noteq> Failed e"
  using reachable_same_prefix[OF assms] by simp

theorem never_fails_witness:
  "run 2 project_site (Running (scenario\<lparr>pathname := ''/my-repo//x''\<rparr>)) \<noteq> Failed SecurityError"
  using never_fails[OF run_reachable[OF reachable.start,
        of project_site "scenario\<lparr>pathname := ''/my-repo//x''\<rparr>" 2], of SecurityError]
  by (simp add: wf_location_eval repo_def)

section \<open>Well-formedness and origin of the tab\<close>

text \<open>
  C23 (invariant).  Whatever the host serves and however often the program
  redirects, an address at which the tab settles has the origin of the
  request: \<open>redirect\<close> builds its URL on the origin of the location, and
  \<open>replaceState\<close> refuses a URL of another origin.
\<close>

theorem settled_same_origin:
  assumes "reachable st l0 (Settled l)" and "wf_location l0"
  shows "origin l = origin l0"
  using reachable_at_origin[OF assms] by (simp add: at_origin_def)

text \<open>
  A request with the token in its path, on a port of its own: the tab settles
  at another path, under the same origin.
\<close>

theorem settled_same_origin_witness:
  "run 2 project_site
     (Running (scenario\<lparr>port := ''8080'', pathname := ''/my-repo/a~and~b''\<rparr>)) =
   Settled (scenario\<lparr>port := ''8080'', pathname := ''/my-repo/a&b''\<rparr>) \<and>
   origin (scenario\<lparr>port := ''8080'', pathname := ''/my-repo/a&b''\<rparr>) =
   origin (scenario\<lparr>port := ''8080'', pathname := ''/my-repo/a~and~b''\<rparr>)"
proof -
  let ?req = "scenario\<lparr>port := ''8080'', pathname := ''/my-repo/a~and~b''\<rparr>"
  let ?res = "scenario\<lparr>port := ''8080'', pathname := ''/my-repo/a&b''\<rparr>"
  have wf: "wf_location ?req"
    by (simp add: wf_location_eval)
  have "run 2 project_site (Running ?req) = Settled (restored ?req (repo ?req (JBool True)))"
    by (rule run_two_loads_restored) (simp_all add: wf_location_eval repo_def)
  then have run: "run 2 project_site (Running ?req) = Settled ?res"
    by (simp add: repo_def gh_eval amp_encode_def amp_decode_def replace_all.simps)
  with run_reachable[OF reachable.start, of project_site ?req 2]
  have "reachable project_site ?req (Settled ?res)"
    by simp
  from settled_same_origin[OF this wf] run show ?thesis
    by simp
qed

end
