(* ===== verification/Settle.thy ===== *)
theory Settle
  imports Browser
begin

text \<open>
  The tab followed until it comes to rest.  \<open>run n\<close> of theory \<open>Browser\<close>
  performs at most \<open>n\<close> loads; \<open>settle\<close> performs as many as it takes and
  is a partial function: \<open>None\<close> says that the redirects never end.

  The theory relates the two (\<open>settle_iff_run\<close>), bounds the number of
  loads of every request that comes to rest by two (\<open>settle_within_two\<close>),
  and characterises the requests that never do (\<open>never_settles_iff\<close>):
  those for which the host answers the requested path and the landing path
  with the fallback document.
\<close>

section \<open>Definitions\<close>

partial_function (option) settle :: "site \<Rightarrow> page \<Rightarrow> page option" where
  "settle st p =
     (case p of
        Running l \<Rightarrow> settle st (page_load st l)
      | Settled l \<Rightarrow> Some (Settled l)
      | Failed e \<Rightarrow> Some (Failed e))"

section \<open>Unfolding\<close>

lemma settle_Settled [simp]: "settle st (Settled l) = Some (Settled l)"
  by (subst settle.simps) simp

lemma settle_Failed [simp]: "settle st (Failed e) = Some (Failed e)"
  by (subst settle.simps) simp

lemma settle_Running: "settle st (Running l) = settle st (page_load st l)"
  by (subst settle.simps) simp

lemma settle_final: "\<forall>l. p \<noteq> Running l \<Longrightarrow> settle st p = Some p"
  by (cases p) simp_all

lemma run_final: "\<forall>l. p \<noteq> Running l \<Longrightarrow> run n st p = p"
  by (cases p) simp_all

lemma settle_run: "settle st (run n st p) = settle st p"
proof (induction n arbitrary: p)
  case (Suc n)
  then show ?case by (cases p) (simp_all add: settle_Running)
qed simp

section \<open>Fuel and the partial function\<close>

lemma settle_SomeD:
  assumes ret: "settle st p = Some q"
  shows "\<exists>n. run n st p = q \<and> (\<forall>l. q \<noteq> Running l)"
proof (rule settle.raw_induct
    [where P = "\<lambda>st p q. \<exists>n. run n st p = q \<and> (\<forall>l. q \<noteq> Running l)", OF _ ret])
  fix f :: "site \<Rightarrow> page \<Rightarrow> page option" and st p q
  assume IH: "\<And>st p q. f st p = Some q \<Longrightarrow> \<exists>n. run n st p = q \<and> (\<forall>l. q \<noteq> Running l)"
    and eq: "(case p of Running l \<Rightarrow> f st (page_load st l)
              | Settled l \<Rightarrow> Some (Settled l) | Failed e \<Rightarrow> Some (Failed e)) = Some q"
  show "\<exists>n. run n st p = q \<and> (\<forall>l. q \<noteq> Running l)"
  proof (cases p)
    case (Running l)
    with eq have "f st (page_load st l) = Some q" by simp
    from IH[OF this] obtain n where "run n st (page_load st l) = q" "\<forall>l. q \<noteq> Running l"
      by blast
    with Running have "run (Suc n) st p = q \<and> (\<forall>l. q \<noteq> Running l)" by simp
    then show ?thesis ..
  next
    case (Settled l)
    with eq have "run 0 st p = q \<and> (\<forall>l. q \<noteq> Running l)" by auto
    then show ?thesis ..
  next
    case (Failed e)
    with eq have "run 0 st p = q \<and> (\<forall>l. q \<noteq> Running l)" by auto
    then show ?thesis ..
  qed
qed

lemma settle_SomeI:
  assumes "run n st p = q" and "\<forall>l. q \<noteq> Running l"
  shows "settle st p = Some q"
  using settle_run[of st n p] assms by (simp add: settle_final)

text \<open>
  The partial function and the function with fuel agree: \<open>settle\<close>
  returns a page exactly when some number of loads leads to that page and the
  page is at rest.
\<close>

lemma settle_iff_run:
  "settle st p = Some q \<longleftrightarrow> (\<exists>n. run n st p = q) \<and> (\<forall>l. q \<noteq> Running l)"
  using settle_SomeD[of st p q] settle_SomeI[of _ st p q] by blast

section \<open>Requests that never come to rest\<close>

lemma stranded_settle:
  assumes "stranded st l"
  shows "settle st (Running l) = None"
proof (cases "settle st (Running l)")
  case (Some q)
  from settle_SomeD[OF this] obtain n where "run n st (Running l) = q" "\<forall>l. q \<noteq> Running l"
    by blast
  with stranded_run[OF assms, of n] show ?thesis by auto
qed simp

section \<open>Requests that come to rest\<close>

lemma settle_one_load:
  assumes "served_title st (pathname l) \<noteq> ''404''"
  shows "settle st (Running l) = Some (page_load st l)"
    and "run (Suc n) st (Running l) = page_load st l"
  using page_load_real_final[OF assms]
  by (simp_all add: settle_Running settle_final run_final)

lemma settle_two_loads:
  assumes "wf_location l" and "served_title st (pathname l) = ''404''"
    and "served_title st (repo l (JBool True) @ ''/'') \<noteq> ''404''"
  shows "settle st (Running l) = Some (page_load st (landing l (repo l (JBool True))))"
    and "run (Suc (Suc n)) st (Running l) = page_load st (landing l (repo l (JBool True)))"
  using settle_one_load[of st "landing l (repo l (JBool True))"] assms(3)
  by (simp_all add: settle_Running page_load_404[OF assms(1,2)])

text \<open>
  C18 (termination).  Two loads are enough, always.  Whatever the host serves,
  a well-formed request that comes to rest at all has come to rest after the
  second load, at the page that \<open>settle\<close> returns.
\<close>

theorem settle_within_two:
  assumes "wf_location l" and "settle st (Running l) = Some q"
  shows "run 2 st (Running l) = q"
proof (cases "served_title st (pathname l) = ''404''")
  case False
  from settle_one_load(1)[OF False] settle_one_load(2)[OF False, of "Suc 0"] assms(2)
  show ?thesis
    by (simp add: numeral_2_eq_2)
next
  case fallback: True
  show ?thesis
  proof (cases "served_title st (repo l (JBool True) @ ''/'') = ''404''")
    case True
    with assms(1) fallback have "stranded st l" by (simp add: stranded_def)
    from stranded_settle[OF this] assms(2) show ?thesis by simp
  next
    case False
    from settle_two_loads(1)[OF assms(1) fallback False]
      settle_two_loads(2)[OF assms(1) fallback False, of 0] assms(2)
    show ?thesis
      by (simp add: numeral_2_eq_2)
  qed
qed

theorem settle_within_two_witness:
  "run 2 project_site (Running scenario) = Settled scenario"
proof -
  have "run 2 project_site (Running scenario) = Settled scenario"
    by (rule run_two_loads) (simp_all add: wf_location_eval repo_def amp_safe_def gh_eval)
  then have "settle project_site (Running scenario) = Some (Settled scenario)"
    by (rule settle_SomeI) simp
  from settle_within_two[OF _ this] show ?thesis
    by (simp add: wf_location_eval)
qed

text \<open>
  C17 (liveness).  The requests that never come to rest are exactly those for
  which the host answers both the requested path and the landing path (the
  first segment and a slash) with a document titled \<open>404\<close>.  Every other
  well-formed request ends in an address or in an exception.
\<close>

theorem never_settles_iff:
  assumes "wf_location l"
  shows "settle st (Running l) = None \<longleftrightarrow>
           served_title st (pathname l) = ''404'' \<and>
           served_title st (repo l (JBool True) @ ''/'') = ''404''"
proof (cases "stranded st l")
  case True
  with stranded_settle[OF True] show ?thesis by (simp add: stranded_def)
next
  case False
  with assms have "served_title st (pathname l) \<noteq> ''404'' \<or>
      served_title st (pathname l) = ''404'' \<and>
      served_title st (repo l (JBool True) @ ''/'') \<noteq> ''404''"
    by (auto simp: stranded_def)
  then have "settle st (Running l) \<noteq> None"
    using settle_one_load(1)[of st l] settle_two_loads(1)[OF assms, of st] by auto
  with False assms show ?thesis by (auto simp: stranded_def)
qed

theorem never_settles_iff_witness:
  "settle user_site (Running about_request) = None"
  using never_settles_iff[of about_request user_site]
  by (simp add: wf_location_eval served_title_def repo_def)

end
