(* ===== verification/Fragment.thy ===== *)
theory Fragment
  imports Browser
begin

text \<open>
  The fragment of the request across the loads of the tab.  The script copies
  \<open>l.hash\<close> to the end of both URLs it builds (lines 35 and 54); the
  browser reads a fragment from the first \<open>#\<close> of a URL.  The theory
  shows that the two fit: nothing that \<open>redirect\<close> or \<open>resolve\<close>
  writes before the fragment holds a \<open>#\<close>, so the fragment of every
  location of the tab is the fragment of the request
  (\<open>fragment_preserved\<close>).
\<close>

section \<open>One load\<close>

lemma resolve_url_fragment:
  assumes wf: "wf_location l"
    and ok: "replace_state l (resolve_url (parse_query (search l)) l (repo l pp)) = Inr l'"
  shows "hash l' = hash l"
proof -
  let ?a = "repo l pp @ or_empty (parse_query (search l) ''p'') @
            query_suffix (parse_query (search l) ''q'')"
  from wf have route: "wf_route l" and org: "wf_origin l"
    by (simp_all add: wf_location_def)
  from route have s: "CHR ''#'' \<notin> set (search l)"
    and h: "hash l = [] \<or> prefix ''#'' (hash l) \<and> 2 \<le> length (hash l)"
    by (simp_all add: wf_route_def)
  have "CHR ''#'' \<notin> set (repo l pp)"
    using repo_route_chars(2)[OF route, of pp] by (auto simp: route_char_def)
  moreover have "CHR ''#'' \<notin> set (or_empty (parse_query (search l) ''p''))"
    using parse_query_value_chars[OF _ s] by (cases "parse_query (search l) ''p''") auto
  moreover have "CHR ''#'' \<notin> set (query_suffix (parse_query (search l) ''q''))"
    using parse_query_value_chars[OF _ s]
    by (cases "parse_query (search l) ''q''") (auto simp: query_suffix_def)
  ultimately have "CHR ''#'' \<notin> set ?a" by simp
  from replace_state_fragment[OF _ this org h, of l'] ok show ?thesis
    by (simp add: resolve_url_def)
qed

lemma page_load_fragment:
  assumes wf: "wf_location l" and p: "page_load st l = Running l' \<or> page_load st l = Settled l'"
  shows "hash l' = hash l"
proof (cases "served_title st (pathname l) = ''404''")
  case True
  with p show ?thesis by (auto simp: page_load_404[OF wf])
next
  case False
  with p show ?thesis
    by (auto simp: page_load_def ghspa_dispatch apply_effect_def resolve_def Let_def
        split: sum.splits if_splits dest: resolve_url_fragment[OF wf])
qed

section \<open>Every load\<close>

lemma reachable_fragment:
  assumes "reachable st l0 p" and "wf_location l0"
  shows "\<forall>l. p = Running l \<or> p = Settled l \<longrightarrow> hash l = hash l0"
  using assms
proof (induction rule: reachable.induct)
  case start
  then show ?case by simp
next
  case (step p p')
  from step.hyps(2) obtain l where p: "p = Running l" and p': "p' = page_load st l"
    by (auto elim: page_step.cases)
  from reachable_at_origin[OF step.hyps(1) step.prems] have "wf_location l"
    by (simp add: p at_origin_def)
  from page_load_fragment[OF this] step.IH[OF step.prems] show ?case
    by (auto simp: p p')
qed

text \<open>
  C24 (invariant).  The fragment of the request is the fragment of every
  location of the tab, after any number of loads, whatever the host serves
  and whatever the path and the query hold: the script appends it to both
  URLs it builds, and neither the prefix nor the payload nor the decoded
  parameters bring a \<open>#\<close> before it.
\<close>

theorem fragment_preserved:
  assumes "reachable st l0 p" and "wf_location l0"
    and "p = Running l \<or> p = Settled l"
  shows "hash l = hash l0"
  using reachable_fragment[OF assms(1,2)] assms(3) by blast

text \<open>
  A request with the token in its path: the tab settles at another path, with
  the fragment of the request.
\<close>

theorem fragment_preserved_witness:
  "run 2 project_site (Running (amp_request\<lparr>pathname := ''/my-repo/a~and~b''\<rparr>)) =
   Settled (amp_request\<lparr>pathname := ''/my-repo/a&b''\<rparr>) \<and>
   hash (amp_request\<lparr>pathname := ''/my-repo/a&b''\<rparr>) =
   hash (amp_request\<lparr>pathname := ''/my-repo/a~and~b''\<rparr>)"
proof -
  let ?req = "amp_request\<lparr>pathname := ''/my-repo/a~and~b''\<rparr>"
  let ?res = "amp_request\<lparr>pathname := ''/my-repo/a&b''\<rparr>"
  have wf: "wf_location ?req"
    by (simp add: wf_location_eval)
  have "run 2 project_site (Running ?req) = Settled (restored ?req (repo ?req (JBool True)))"
    by (rule run_two_loads_restored) (simp_all add: wf_location_eval repo_def)
  then have run: "run 2 project_site (Running ?req) = Settled ?res"
    by (simp add: repo_def gh_eval amp_encode_def amp_decode_def replace_all.simps)
  with run_reachable[OF reachable.start, of project_site ?req 2]
  have "reachable project_site ?req (Settled ?res)"
    by simp
  from fragment_preserved[OF this wf] run show ?thesis
    by simp
qed

end
