(* ===== verification/History.thy ===== *)
theory History
  imports Browser
begin

text \<open>
  The session history of the tab.  Theory \<open>Browser\<close> follows the address
  of the document in the tab; this theory adds the entries before and after
  it, which the Back and Forward buttons reach, and what each host call of
  type \<open>effect\<close> does to them.  None of this is code of the repository:
  it follows the specification (section 4.2, \<^emph>\<open>replaces the current history
  entry\<close>; section 4.3, step 5) and the navigation model of the HTML
  standard.

  \<^item> \<open>session\<close> is the session history: the list of its entries, oldest
    first, each with its address, and the index of the current one.
    \<open>push_entry\<close> drops the entries after the current one and adds a new
    entry, which becomes the current one; \<open>replace_entry\<close> gives the
    current entry a new address.  A link that the user follows pushes
    (\<open>visit\<close>).
  \<^item> \<open>history_update e l\<close> is what the host call \<open>e\<close> does to the
    history when it leads to the location \<open>l\<close>: \<open>location.assign\<close> and
    \<open>history.pushState\<close> push, \<open>location.replace\<close> and
    \<open>history.replaceState\<close> replace.
  \<^item> \<open>session_run n\<close> is \<open>run n\<close> of theory \<open>Browser\<close> with the
    history: at most \<open>n\<close> loads; each runs the script at the address of
    the current entry and updates the history by the call the script makes.
    A call that throws leaves the history as it is.

  The script makes no call that pushes (\<open>ghspa_replaces\<close>).  From this
  the lemmas show that its loads change nothing but the address of the
  current entry (\<open>history_kept\<close>), that this address is the one \<open>run\<close>
  computes (\<open>session_run_shown\<close>), and that the history after a deep
  link is the history of a visit of the restored address
  (\<open>deep_link_history\<close>): the URL of the redirect is in no entry, and
  Back leads to the page the user came from (\<open>back_after_deep_link\<close>).
\<close>

section \<open>Definitions\<close>

record session =
  entries :: "location list"
  current :: nat

abbreviation push_entry :: "location \<Rightarrow> session \<Rightarrow> session" where
  "push_entry l h \<equiv>
     \<lparr>entries = take (Suc (current h)) (entries h) @ [l], current = Suc (current h)\<rparr>"

abbreviation replace_entry :: "location \<Rightarrow> session \<Rightarrow> session" where
  "replace_entry l h \<equiv> h\<lparr>entries := (entries h)[current h := l]\<rparr>"

definition history_update :: "effect \<Rightarrow> location \<Rightarrow> session \<Rightarrow> session" where
  "history_update e l h =
     (case e of
        LocationAssign u \<Rightarrow> push_entry l h
      | LocationReplace u \<Rightarrow> replace_entry l h
      | HistoryPushState u \<Rightarrow> push_entry l h
      | HistoryReplaceState u \<Rightarrow> replace_entry l h
      | NoEffect \<Rightarrow> h)"

fun session_run :: "nat \<Rightarrow> site \<Rightarrow> session \<Rightarrow> session" where
  "session_run 0 st h = h"
| "session_run (Suc n) st h =
     (let l = entries h ! current h;
          e = ghspa (served_title st (pathname l)) l (project_flag st)
      in case apply_effect l e of
           Running l' \<Rightarrow> session_run n st (history_update e l' h)
         | Settled l' \<Rightarrow> history_update e l' h
         | Failed err \<Rightarrow> h)"

text \<open>
  The address in the address bar, the condition that the current entry
  exists, a link that the user follows, the Back button, and a history for
  the examples: the user is on the home page of the project site.
\<close>

abbreviation shown :: "session \<Rightarrow> location" where
  "shown h \<equiv> entries h ! current h"

abbreviation wf_session :: "session \<Rightarrow> bool" where
  "wf_session h \<equiv> current h < length (entries h)"

abbreviation visit :: "location \<Rightarrow> session \<Rightarrow> session" where
  "visit l h \<equiv> push_entry l h"

abbreviation go_back :: "session \<Rightarrow> session" where
  "go_back h \<equiv> h\<lparr>current := current h - 1\<rparr>"

abbreviation at_home :: session where
  "at_home \<equiv> \<lparr>entries = [scenario\<lparr>pathname := ''/my-repo/'', search := [], hash := []\<rparr>],
              current = 0\<rparr>"

section \<open>The calls of the script\<close>

text \<open>
  \<open>redirect\<close> calls \<open>location.replace\<close>, \<open>resolve\<close> calls
  \<open>history.replaceState\<close> or nothing: no run of the script pushes.
\<close>

lemma ghspa_replaces:
  "ghspa title l w \<noteq> LocationAssign u" "ghspa title l w \<noteq> HistoryPushState u"
  by (simp_all add: ghspa_dispatch resolve_def Let_def)

lemma history_update_ghspa:
  "history_update (ghspa title l w) l' h =
     (if ghspa title l w = NoEffect then h else replace_entry l' h)"
proof (cases "ghspa title l w")
  case (LocationAssign u)
  with ghspa_replaces(1)[of title l w u] show ?thesis by simp
next
  case (HistoryPushState u)
  with ghspa_replaces(2)[of title l w u] show ?thesis by simp
qed (simp_all add: history_update_def)

lemma apply_effect_NoEffect [simp]: "apply_effect l NoEffect = Settled l"
  by (simp add: apply_effect_def)

section \<open>Entries\<close>

lemma wf_session_push: "wf_session h \<Longrightarrow> wf_session (push_entry l h)"
  by simp

lemma shown_push [simp]: "wf_session h \<Longrightarrow> shown (push_entry l h) = l"
  by (simp add: nth_append)

lemma replace_after_push [simp]:
  "wf_session h \<Longrightarrow> replace_entry l' (push_entry l h) = push_entry l' h"
  by (simp add: list_update_append min_def)

lemma go_back_push [simp]: "wf_session h \<Longrightarrow> shown (go_back (push_entry l h)) = shown h"
  by (simp add: nth_append)

section \<open>The loads of the tab in the history\<close>

text \<open>
  One load of the script: the history after it is the history before it with
  the address of the page in the current entry, and no change when the call
  throws.
\<close>

lemma session_run_Suc:
  assumes "wf_session h"
  shows "session_run (Suc n) st h =
           (case page_load st (shown h) of
              Running l \<Rightarrow> session_run n st (replace_entry l h)
            | Settled l \<Rightarrow> replace_entry l h
            | Failed e \<Rightarrow> h)"
proof (cases "ghspa (served_title st (pathname (shown h))) (shown h) (project_flag st) = NoEffect")
  case True
  then show ?thesis
    by (simp add: page_load_def history_update_def)
next
  case False
  then show ?thesis
    by (simp add: page_load_def Let_def history_update_ghspa split: page.split)
qed

declare session_run.simps(2) [simp del]

text \<open>
  Whatever the loads do, they do it to the current entry.
\<close>

lemma session_run_replace:
  assumes "wf_session h"
  shows "session_run n st h = replace_entry (shown (session_run n st h)) h"
  using assms
proof (induction n arbitrary: h)
  case (Suc n)
  show ?case
  proof (cases "page_load st (shown h)")
    case (Running l)
    from Suc.IH[of "replace_entry l h"] Suc.prems
    show ?thesis by (simp add: session_run_Suc Running)
  qed (use Suc.prems in \<open>simp_all add: session_run_Suc\<close>)
qed simp

text \<open>
  The machine with the history refines the machine without: the address of
  the current entry is the address that \<open>run\<close> computes.
\<close>

lemma session_run_shown:
  assumes "wf_session h"
    and "run n st (Running (shown h)) = Running l \<or> run n st (Running (shown h)) = Settled l"
  shows "shown (session_run n st h) = l"
  using assms
proof (induction n arbitrary: h)
  case (Suc n)
  show ?case
  proof (cases "page_load st (shown h)")
    case (Running l')
    from Suc.IH[of "replace_entry l' h"] Suc.prems
    show ?thesis by (simp add: session_run_Suc Running)
  qed (use Suc.prems in \<open>auto simp: session_run_Suc\<close>)
qed simp

lemma session_run_Settled:
  assumes "wf_session h" and "run n st (Running (shown h)) = Settled l"
  shows "session_run n st h = replace_entry l h"
  using session_run_replace[OF assms(1), of n st] session_run_shown[OF assms(1), of n st l]
    assms(2)
  by simp

text \<open>
  C20 (safety).  The script adds no entry to the session history and touches
  no entry but the current one, on any host, for any request and after any
  number of loads, whether the tab comes to rest, is redirected for ever or
  ends in an exception: the history keeps its length and its index, and every
  other entry its address.  The Back button never leads to the fallback
  document.  This holds because \<open>redirect\<close> calls \<open>location.replace\<close>
  and \<open>resolve\<close> calls \<open>history.replaceState\<close>; with
  \<open>location.assign\<close> or \<open>history.pushState\<close> in their place the history
  would grow with every load.
\<close>

theorem history_kept:
  assumes "current h < length (entries h)"
  shows "length (entries (session_run n st h)) = length (entries h) \<and>
         current (session_run n st h) = current h \<and>
         (\<forall>i. i \<noteq> current h \<longrightarrow> entries (session_run n st h) ! i = entries h ! i)"
proof -
  from session_run_replace[OF assms, of n st]
  obtain l where "session_run n st h = replace_entry l h" ..
  then show ?thesis by simp
qed

theorem history_kept_witness:
  "length (entries (session_run 3 user_site (visit about_request at_home))) = 2 \<and>
   entries (session_run 3 user_site (visit about_request at_home)) ! 0 = shown at_home"
  using history_kept[of "visit about_request at_home" 3 user_site]
  by simp

section \<open>The history after a deep link\<close>

lemma session_run_deep_link:
  assumes "wf_location l"
    and "pathname l \<notin> set (documents st)"
    and "repo l (JBool True) @ ''/'' \<in> set (documents st)"
    and "real_title st \<noteq> ''404''"
    and "repo l (JBool True) \<noteq> ''/''"
    and "wf_session h"
  shows "session_run (n + 2) st (visit l h) = visit (restored l (repo l (JBool True))) h"
proof -
  have "shown (visit l h) = l"
    by (rule shown_push[OF assms(6)])
  then have "run (n + 2) st (Running (shown (visit l h))) =
        Settled (restored l (repo l (JBool True)))"
    using run_more[OF run_two_loads_restored[OF assms(1-5)], of n] by (simp only:)
  then have "session_run (n + 2) st (visit l h) =
        replace_entry (restored l (repo l (JBool True))) (visit l h)"
    by (rule session_run_Settled[OF wf_session_push[OF assms(6)]])
  also have "\<dots> = visit (restored l (repo l (JBool True))) h"
    by (rule replace_after_push[OF assms(6)])
  finally show ?thesis .
qed

text \<open>
  C19 (functional).  The redirect leaves no trace in the history.  The user
  follows a link to an address that the host has no file for, on a host that
  serves the real document under the first segment of the path.  After the
  two loads, and after any larger number, the session history is the one that
  a visit of the restored address would have left: the entries up to the page
  the user came from, and one entry with the restored address.  No entry has
  the URL of the redirect, because \<open>redirect\<close> calls
  \<open>location.replace\<close> and \<open>resolve\<close> calls \<open>replaceState\<close>: a
  redirect by \<open>location.assign\<close> would leave the address of the fallback
  document in the entry before the current one.
\<close>

theorem deep_link_history:
  assumes "wf_location l"
    and "pathname l \<notin> set (documents st)"
    and "repo l (JBool True) @ ''/'' \<in> set (documents st)"
    and "real_title st \<noteq> ''404''"
    and "repo l (JBool True) \<noteq> ''/''"
    and "current h < length (entries h)"
  shows "session_run (n + 2) st (visit l h) = visit (restored l (repo l (JBool True))) h"
  by (rule session_run_deep_link[OF assms])

theorem deep_link_history_witness:
  "session_run 5 project_site (visit amp_request at_home) =
   \<lparr>entries = [scenario\<lparr>pathname := ''/my-repo/'', search := [], hash := []\<rparr>, amp_request],
    current = 1\<rparr>"
  using deep_link_history[of amp_request project_site at_home 3]
  by (simp add: wf_location_eval repo_def gh_eval amp_encode_def amp_decode_def
      replace_all.simps)

text \<open>
  For the requests of the round trip the restored address is the requested
  one, and for no other; and Back leads to where the user came from in either
  case.
\<close>

lemma deep_link_history_iff:
  assumes "wf_location l"
    and "pathname l \<notin> set (documents st)"
    and "repo l (JBool True) @ ''/'' \<in> set (documents st)"
    and "real_title st \<noteq> ''404''"
    and "repo l (JBool True) \<noteq> ''/''"
    and "wf_session h"
  shows "session_run (n + 2) st (visit l h) = visit l h \<longleftrightarrow>
           CHR ''&'' \<notin> set (repo l (JBool True)) \<and>
           amp_safe (drop (length (repo l (JBool True))) (pathname l)) \<and>
           amp_safe (drop 1 (search l))"
proof -
  from assms(1) have "wf_route l" by (simp add: wf_location_def)
  from restored_request_iff[OF this, of "JBool True"] show ?thesis
    unfolding session_run_deep_link[OF assms] by simp
qed

lemma back_after_deep_link:
  assumes "wf_location l"
    and "pathname l \<notin> set (documents st)"
    and "repo l (JBool True) @ ''/'' \<in> set (documents st)"
    and "real_title st \<noteq> ''404''"
    and "repo l (JBool True) \<noteq> ''/''"
    and "wf_session h"
  shows "shown (go_back (session_run (n + 2) st (visit l h))) = shown h"
  unfolding session_run_deep_link[OF assms] by (rule go_back_push[OF assms(6)])

end
