(* ===== verification/Ghspa_Spec.thy ===== *)
theory Ghspa_Spec
  imports Ghspa
begin

text \<open>
  What the specification promises of the two transforms, as definitions
  written from its words (\<open>spec.md\<close>, sections 3, 4.2, 4.3 and 6) and not
  from the code, and the theorems that say where the script implements them
  and where it does not.

  \<^item> \<open>spec_flag\<close> is the configuration flag: a boolean, true when it is not
    given (section 6).
  \<^item> \<open>spec_prefix\<close> is the repository prefix: empty on a site at the root
    of its domain, a slash and the first path segment on a project site
    (section 3).
  \<^item> \<open>spec_redirect_url\<close> is the URL of the forward encoder (section 4.2):
    the path with the prefix removed and then every \<open>&\<close> replaced.
  \<^item> \<open>spec_resolve\<close> is the reverse decoder, steps 1 to 5 of section 4.3,
    over a mapping from keys to values in which the last entry of a key wins.
  \<^item> \<open>spec_ghspa\<close> is the dispatch of section 4.1 over the two.

  The decoder of the script is the decoder of the specification
  (\<open>resolve_refines_spec\<close>).  The encoder is the encoder of the
  specification exactly when the first segment of the path holds no \<open>&\<close>
  (\<open>redirect_matches_spec_iff\<close>).  The whole script is the specification
  when, in addition, the flag is true or not given
  (\<open>ghspa_refines_spec\<close>); with the flag set to \<open>false\<close> it never is on
  the fallback document (\<open>ghspa_differs_when_false\<close>).
\<close>

section \<open>Definitions\<close>

definition spec_flag :: "jsval \<Rightarrow> bool" where
  "spec_flag w = (case w of JUndefined \<Rightarrow> True | _ \<Rightarrow> truthy w)"

definition spec_prefix :: "location \<Rightarrow> bool \<Rightarrow> string" where
  "spec_prefix l project =
     (if project then ''/'' @ takeWhile (\<lambda>c. c \<noteq> CHR ''/'') (drop 1 (pathname l)) else [])"

definition spec_redirect_url :: "location \<Rightarrow> string \<Rightarrow> string" where
  "spec_redirect_url l pre =
     origin l @ pre @ ''/?'' @
     (if pathname l = [] then [] else ''p='' @ amp_encode (replace_first pre [] (pathname l))) @
     (if search l = [] then [] else ''&q='' @ amp_encode (drop 1 (search l))) @
     hash l"

definition spec_resolve :: "location \<Rightarrow> string \<Rightarrow> effect" where
  "spec_resolve l pre =
     (if search l = [] then NoEffect
      else let m = map_of (rev (map key_value (split_chr CHR ''&'' (drop 1 (search l)))))
           in (case m ''p'' of
                 None \<Rightarrow> NoEffect
               | Some p \<Rightarrow>
                   HistoryReplaceState
                     (pre @ p @
                      (case m ''q'' of
                         None \<Rightarrow> []
                       | Some q \<Rightarrow> if q = [] then [] else ''?'' @ q) @
                      hash l)))"

definition spec_ghspa :: "string \<Rightarrow> location \<Rightarrow> jsval \<Rightarrow> effect" where
  "spec_ghspa title l w =
     (let pre = spec_prefix l (spec_flag w)
      in if title = ''404'' then LocationReplace (spec_redirect_url l pre)
         else spec_resolve l pre)"

section \<open>The decoder\<close>

lemma parse_query_key:
  "k \<noteq> ''__proto__'' \<Longrightarrow>
   parse_query s k = map_of (rev (map key_value (split_chr CHR ''&'' (drop 1 s)))) k"
  by (simp add: parse_query_map_of rev_filter map_of_filter_stored)

lemmas resolve_spec_simps =
  resolve_def spec_resolve_def resolve_url_def parse_query_key Let_def query_suffix_def

text \<open>
  C15 (refinement).  \<open>resolve\<close> implements the reverse decoder of the
  specification, on every location and with every prefix: the same guard on
  the query, the same test for the key \<open>p\<close>, the same URL.
\<close>

theorem resolve_refines_spec: "resolve l r = spec_resolve l r"
  by (simp add: resolve_spec_simps split: option.split)

section \<open>The prefix\<close>

lemma repo_spec_prefix:
  assumes "wf_route l"
  shows "repo l pp = spec_prefix l (truthy pp)"
  by (cases "truthy pp") (simp_all add: repo_wf[OF assms] spec_prefix_def drop_Suc)

section \<open>The encoder\<close>

lemma redirect_url_spec:
  assumes "prefix r (pathname l)" and "CHR ''&'' \<notin> set r"
  shows "redirect_url l r = spec_redirect_url l r"
proof -
  from assms have "replace_first r [] (amp_encode (pathname l)) =
      amp_encode (replace_first r [] (pathname l))"
    by (simp add: encoded_path_strip replace_first_prefix)
  then show ?thesis
    by (simp add: redirect_url_def spec_redirect_url_def p_param_def q_param_def)
qed

lemma redirect_url_not_spec:
  assumes "prefix r (pathname l)" and "CHR ''&'' \<in> set r"
  shows "redirect_url l r \<noteq> spec_redirect_url l r"
proof -
  from assms(1) obtain rest where path: "pathname l = r @ rest"
    by (auto simp: prefix_def)
  from assms(2) have "r \<noteq> []" by auto
  then have "length (amp_encode rest) < length (amp_encode (pathname l))"
    by (simp add: path)
  moreover have "replace_first r [] (amp_encode (pathname l)) = amp_encode (pathname l)"
    using assms(2) by (rule encoded_path_keep)
  moreover have "replace_first r [] (pathname l) = rest"
    by (simp add: path replace_first_prefix)
  ultimately have "length (spec_redirect_url l r) < length (redirect_url l r)"
    using \<open>r \<noteq> []\<close>
    by (simp add: redirect_url_def spec_redirect_url_def p_param_def q_param_def path)
  then show ?thesis by auto
qed

text \<open>
  C16 (equivalence).  The URL that \<open>redirect\<close> builds is the URL of the
  specification exactly when the first segment of the path holds no
  \<open>&\<close>.  The specification removes the prefix from the path and then
  replaces the ampersands; the script replaces first, after which a prefix
  with an ampersand is no longer found.
\<close>

theorem redirect_matches_spec_iff:
  assumes "wf_route l"
  shows "redirect_url l (repo l pp) = spec_redirect_url l (repo l pp)
         \<longleftrightarrow> CHR ''&'' \<notin> set (repo l pp)"
  using redirect_url_spec[OF repo_prefix[OF assms], of pp]
    redirect_url_not_spec[OF repo_prefix[OF assms], of pp]
  by blast

theorem redirect_matches_spec_iff_witness:
  "redirect_url (scenario\<lparr>pathname := ''/a&b/c''\<rparr>) ''/a&b'' \<noteq>
   spec_redirect_url (scenario\<lparr>pathname := ''/a&b/c''\<rparr>) ''/a&b''"
  using redirect_matches_spec_iff[of "scenario\<lparr>pathname := ''/a&b/c''\<rparr>" "JBool True"]
  by (simp add: wf_route_def repo_def)

section \<open>The script\<close>

text \<open>
  C14 (refinement).  The script implements the specification on every well
  formed location, under every title, when the flag is true or not given and
  the first segment of the path holds no \<open>&\<close>.
\<close>

theorem ghspa_refines_spec:
  assumes "wf_route l" and "spec_flag w"
    and "CHR ''&'' \<notin> set (spec_prefix l True)"
  shows "ghspa title l w = spec_ghspa title l w"
  using assms redirect_url_spec[OF repo_prefix[OF assms(1)], of "JBool True"]
  by (simp add: ghspa_dispatch spec_ghspa_def repo_spec_prefix resolve_spec_simps
      split: option.split)

theorem ghspa_refines_spec_witness:
  "ghspa ''404'' scenario JUndefined = spec_ghspa ''404'' scenario JUndefined"
  using ghspa_refines_spec[of scenario JUndefined "''404''"]
  by (simp add: wf_route_def spec_flag_def spec_prefix_def)

text \<open>
  C27 (functional).  With the flag set to \<open>false\<close> the script does not
  implement the specification on the fallback document: the specification
  redirects to the root of the domain, the script to the first segment of the
  path.
\<close>

theorem ghspa_differs_when_false:
  assumes "wf_route l"
  shows "ghspa ''404'' l (JBool False) \<noteq> spec_ghspa ''404'' l (JBool False)"
proof -
  let ?seg = "takeWhile (\<lambda>x. x \<noteq> CHR ''/'') (tl (pathname l))"
  from assms have "CHR ''?'' \<notin> set (pathname l)"
    by (simp add: wf_route_def)
  then have "CHR ''?'' \<notin> set ?seg"
    by (cases "pathname l") (auto dest: set_takeWhileD)
  then have "?seg @ ''/?'' @ a \<noteq> CHR ''?'' # b" for a b
    by (cases ?seg) auto
  moreover from assms have "pathname l \<noteq> []"
    by (auto simp: wf_route_def)
  ultimately show ?thesis
    by (simp add: ghspa_dispatch spec_ghspa_def spec_flag_def spec_prefix_def
        redirect_url_def spec_redirect_url_def repo_wf[OF assms])
qed

theorem ghspa_differs_when_false_witness:
  "ghspa ''404'' scenario (JBool False) \<noteq> spec_ghspa ''404'' scenario (JBool False)"
  using ghspa_differs_when_false[of scenario] by (simp add: wf_route_def)

end
