(* ===== verification/Spec2Isabelle.thy ===== *)
theory Spec2Isabelle
  imports Settle Fragment History Ghspa_Spec
begin

text \<open>
  \<^bold>\<open>Verification of ghspa.js, the single-page-application redirect for GitHub
  Pages.\<close>

  \<^bold>\<open>The program.\<close>  A static host serves one real document and, for every
  path it has no file for, a fallback document.  Both documents load
  \<open>src/ghspa.js\<close>.  The script is one immediately invoked function of two
  arguments, \<open>window.location\<close> and \<open>window.projectPages || true\<close>
  (lines 21 to 62).  It computes the repository prefix \<open>repo\<close> from the
  first segment of the path (line 22) and then does one of two things
  (line 61):
  \<^item> on a document whose title is \<open>404\<close>, \<open>redirect\<close> (lines 25 to 37)
    navigates to the real document, with the path and the query of the request
    packed into the query parameters \<open>p\<close> and \<open>q\<close>, every \<open>&\<close> in
    them written as \<open>~and~\<close>;
  \<^item> on any other document, \<open>resolve\<close> (lines 40 to 58) parses the
    query, and when it has a parameter \<open>p\<close> unpacks \<open>p\<close> and \<open>q\<close>
    and puts the original address back with \<open>history.replaceState\<close>.

  \<^bold>\<open>The theories\<close>, in the order of their imports.
  \<^item> \<open>GH_Prelude\<close>: the type name \<open>js_string\<close>, the fact collections
    \<open>gh_defs\<close> and \<open>gh_eval\<close>, and generic facts on \<open>prefix\<close>,
    \<open>sublist\<close>, \<open>takeWhile\<close> and \<open>dropWhile\<close>.
  \<^item> \<open>JS_String\<close>: the built-ins the script calls on strings and arrays:
    \<open>split_chr\<close> (\<open>split\<close> with a separator of one code unit),
    \<open>join\<close>, \<open>replace_first\<close> (\<open>replace\<close> with a string pattern),
    \<open>replace_all\<close> (\<open>replace\<close> with a global literal regular
    expression), \<open>js_slice\<close> (\<open>slice\<close>), \<open>for_each\<close>
    (\<open>forEach\<close>).  Lemmas: \<open>split\<close> and \<open>join\<close> are inverse
    to each other, \<open>replace_first\<close> replaces the leftmost occurrence
    only,
    \<open>replace_all\<close> over one code unit is a \<open>concat\<close> of a \<open>map\<close>.
  \<^item> \<open>JS_Value\<close>: the values of \<open>window.projectPages\<close> (\<open>jsval\<close>),
    \<open>truthy\<close>, \<open>js_or\<close> (\<open>||\<close>), array indexing that yields
    \<open>undefined\<close> out of range (\<open>js_index\<close>, \<open>None\<close> is
    \<open>undefined\<close>), the conversion of \<open>+\<close> to a string
    (\<open>to_string\<close>), and the two small idioms of line 54
    (\<open>or_empty\<close> is \<open>q.p || ''\<close>, \<open>query_suffix\<close> is
    \<open>q.q ? '?' + q.q : ''\<close>).
  \<^item> \<open>Amp_Codec\<close>: \<open>amp_encode\<close> is \<open>.replace(/&/g, '~and~')\<close> (lines
    33 and 34), \<open>amp_decode\<close> is \<open>.replace(/~and~/g, '&')\<close> (line 48).
    \<open>amp_safe\<close> is the exact condition under which decoding undoes
    encoding.
  \<^item> \<open>Location\<close>: the record \<open>location\<close> with the six properties of
    \<open>window.location\<close> the script reads; \<open>origin\<close> is the text of
    lines 27 to 30 and \<open>port_suffix\<close> its last piece (line 30);
    \<open>href\<close>, \<open>wf_route\<close>, \<open>wf_origin\<close> and \<open>wf_location\<close> say
    what a browser shows in these properties.
  \<^item> \<open>Query_String\<close>: the object \<open>q\<close> of \<open>resolve\<close> as a map from
    keys to strings; \<open>empty_object\<close> is the \<open>{}\<close> of line 42,
    \<open>obj_set\<close> the assignment \<open>q[k] = v\<close> of line 48,
    \<open>query_entry\<close> the callback of lines 46 to 49, \<open>parse_query\<close>
    the \<open>forEach\<close> over the pieces (lines 42 to 49).  The lemmas
    characterise the result as the last binding of each key.
  \<^item> \<open>Ghspa\<close>: the script itself: \<open>effect\<close>, \<open>repo\<close>, \<open>p_param\<close>,
    \<open>q_param\<close>, \<open>redirect_url\<close>, \<open>redirect\<close>, \<open>resolve_url\<close>,
    \<open>resolve\<close>, \<open>fallback_document\<close> (the test of line 61),
    \<open>ghspa_iife\<close> (the function body) and \<open>ghspa\<close> (the call of line
    62).  A run has exactly one effect on the browser, so a run is
    a function from the title and the location to an \<open>effect\<close>.  The
    lemmas give the shape of the redirect URL, what \<open>resolve\<close> reads back
    from it, and the round trip of the two with its exact conditions.
  \<^item> \<open>Round_Trip\<close>: the location that the round trip restores
    (\<open>restored\<close>), for every well-formed request, and the exact condition
    under which it is the location of the request; the same for the function
    body with an empty prefix.
  \<^item> \<open>Ghspa_Spec\<close>: the specification of the classifier, the encoder and
    the decoder (\<open>spec.md\<close>, sections 3, 4 and 6) as definitions written
    from its words: \<open>spec_flag\<close>, \<open>spec_prefix\<close>,
    \<open>spec_redirect_url\<close>, \<open>spec_resolve\<close>, \<open>spec_ghspa\<close>.  The
    theorems say where the script implements them.
  \<^item> \<open>URL_Parser\<close> and \<open>Browser\<close>: what surrounds the script, after
    the specification and the URL standard and not after code of the
    repository.  \<open>URL_Parser\<close> holds a URL parser (\<open>parse_url\<close>) and
    \<open>replaceState\<close> with its same-origin check (\<open>replace_state\<close>);
    \<open>Browser\<close> holds a static host (\<open>site\<close>) and the tab as a state
    machine (\<open>page\<close>, \<open>page_load\<close>, \<open>page_step\<close>,
    \<open>reachable\<close>, \<open>run\<close>).
  \<^item> \<open>Fragment\<close>: the fragment of the request at every location of the
    tab.
  \<^item> \<open>History\<close>: the session history of the tab (\<open>session\<close>), what
    each host call of type \<open>effect\<close> does to it (\<open>history_update\<close>:
    \<open>assign\<close> and \<open>pushState\<close> add an entry, \<open>replace\<close> and
    \<open>replaceState\<close> replace the current one), and the loads of the tab
    with the history (\<open>session_run\<close>).
  \<^item> \<open>Settle\<close>: \<open>settle\<close>, the tab followed until it comes to rest, as
    a partial function; how many loads that takes, and when it never
    happens.
  \<^item> This theory: the statements about the whole system, stated over the
    host, the browser and the script together.

  \<^bold>\<open>How the model reads the code.\<close>  Strings are lists of characters, one per
  code unit (every string here is ASCII).  An argument that JavaScript would
  pass as \<open>undefined\<close> is \<open>None\<close>; the empty string is falsy, so
  \<open>l.port ? ... : ''\<close> is a test for \<open>port l \<noteq> []\<close>.  The object
  \<open>q\<close> starts as \<open>{}\<close>: a key that was never assigned reads as
  \<open>undefined\<close>, and the program reads only \<open>q.p\<close> and \<open>q.q\<close>, which
  \<open>Object.prototype\<close> does not define.  An assignment to the key
  \<open>__proto__\<close> with a string value is ignored by the object; the model
  writes this out in \<open>obj_set\<close>.  The exceptions of the host objects are
  values of type \<open>browser_error\<close>.

  \<^bold>\<open>What is proved.\<close>
  \<^item> The codec: \<open>amp_encode\<close> leaves no \<open>&\<close>; \<open>amp_decode\<close> undoes
    it exactly on the strings that hold neither \<open>~and~\<close> nor
    \<open>~and&\<close>, and on no other string.
  \<^item> The parser: \<open>parse_query\<close> is \<open>map_of\<close> of the reversed list of
    the pieces, each split at its first \<open>=\<close> and its value decoded.
  \<^item> The script: the query that \<open>redirect\<close> writes has exactly the
    separators it means to have; \<open>resolve\<close> on the landing location gives
    the original path, query and fragment back, if and only if the first
    segment holds no \<open>&\<close> and the rest is \<open>amp_safe\<close>
    (\<open>redirect_resolve_roundtrip_iff\<close>); the flag
    \<open>window.projectPages\<close> has no influence; \<open>resolve\<close> does nothing
    exactly when no piece of the query has the key \<open>p\<close>.
  \<^item> The specification: \<open>resolve\<close> is the decoder of the specification
    (\<open>resolve_refines_spec\<close>); \<open>redirect\<close> builds the URL of the
    specification exactly when the first segment holds no \<open>&\<close>
    (\<open>redirect_matches_spec_iff\<close>); the whole script implements the
    specification when, in addition, the flag is true or not given
    (\<open>ghspa_refines_spec\<close>).
  \<^item> The browser: the URL of \<open>redirect\<close> parses to the landing location
    (\<open>fallback_redirect_lands\<close>), every location of the tab has the
    fragment of the request (\<open>fragment_preserved\<close>), and every address
    the tab settles at has the origin of the request
    (\<open>settled_same_origin\<close>).  A request with
    a non-empty first segment never ends in an exception
    (\<open>never_fails\<close>).
  \<^item> The history: the script makes no call that adds an entry
    (\<open>ghspa_replaces\<close>), so the loads of the tab add no entry and change
    no entry but the current one (\<open>history_kept\<close>); after a deep link the history is
    that of a visit of the restored address, without a trace of the redirect
    (\<open>deep_link_history\<close>).
  \<^item> The size of the redirect: the URL of \<open>redirect\<close> is longer than the
    URL of the request by four characters, two more with a query, and four
    for every \<open>&\<close> (\<open>redirect_url_length\<close>).
  \<^item> The function body with a flag that is not truthy, which line 62 rules
    out but line 22 provides for: the prefix is empty and the round trip
    holds exactly on the \<open>amp_safe\<close> paths and queries
    (\<open>iife_root_roundtrip\<close>).
  \<^item> The system: on a project site, a request for a path the host has no file
    for ends, after two loads, at that very address with the real document in
    the tab (\<open>page_load_roundtrip\<close>), the conditions of this are exact
    (\<open>page_load_roundtrip_iff\<close>), and every other such request ends at
    the restored location (\<open>page_load_restored\<close>); on a host that has no document under
    \<open>/first-segment/\<close> the script redirects for ever
    (\<open>redirect_loop\<close>); a request whose path starts with two slashes and
    names another host ends in a \<open>SecurityError\<close>
    (\<open>network_path_rejected\<close>).
  \<^item> Termination: a request that comes to rest does so within two loads
    (\<open>settle_within_two\<close>), and the requests that never do are exactly
    those that the host answers twice with the fallback document
    (\<open>never_settles_iff\<close>).

  \<^bold>\<open>Fuel.\<close>  \<open>run n\<close> performs at most \<open>n\<close> loads and stops earlier at
  a page that is \<open>Settled\<close> or \<open>Failed\<close>.  The round trip needs two
  loads (the fallback document and the real one), and \<open>page_load_roundtrip\<close>
  is stated for every fuel \<open>n + 2\<close>.  \<open>redirect_loop\<close> is stated for
  every \<open>n\<close>: no amount of fuel lets the tab settle.  \<open>settle\<close> is
  the same loop without fuel, a \<^theory_text>\<open>partial_function\<close> in the option
  monad: \<open>None\<close> is a chain of redirects without end, and
  \<open>settle_iff_run\<close> relates it to \<open>run\<close>.  The relation
  \<open>reachable\<close> holds of exactly the pages that \<open>run\<close> computes
  with some fuel (\<open>reachable_iff_run\<close>), so an invariant of
  \<open>reachable\<close> is a statement about every fuel.  \<open>session_run n\<close>
  is \<open>run n\<close> with the session history and takes the same fuel
  (\<open>session_run_shown\<close>).  Every other function of
  the development is total: by structural recursion, or on a strictly shorter
  string (\<open>replace_all\<close>).

  \<^bold>\<open>What the proofs brought to light.\<close>
  \<^item> \<open>window.projectPages || true\<close> is truthy for every value, so setting
    the flag to \<open>false\<close> does not turn the prefix off
    (\<open>ghspa_flag_ignored\<close>), and on a site at the root of its domain the
    script never reaches the real document (\<open>redirect_loop\<close>).
  \<^item> The code encodes the path before it removes the prefix.  A first segment
    that holds \<open>&\<close> is therefore not removed and appears twice in the
    restored address (\<open>prefix_amp_duplicates\<close>).
  \<^item> A path or query that holds \<open>~and&\<close> is not restored, although it
    holds no \<open>~and~\<close> (\<open>amp_token_free_not_enough\<close>).
  \<^item> For a path that starts with \<open>//\<close> the argument of
    \<open>replaceState\<close> is a reference to another host, and the call throws
    (\<open>network_path_rejected\<close>).  An empty first segment is the only
    way to an exception (\<open>never_fails\<close>).
  \<^item> \<open>resolve\<close> takes a parameter \<open>p\<close> of the application itself for
    the payload of \<open>redirect\<close> (\<open>resolve_foreign_p\<close>).

  \<^bold>\<open>What is not modelled.\<close>  Percent-encoding and the other normalisations
  of the URL parser: a well-formed location is one they leave alone, and the
  theorems on the round trip are exact for a parser that encodes nothing.  A
  browser encodes more characters in a query than in a path (the apostrophe
  is one); such a character of the path, moved into the query by
  \<open>redirect\<close>, comes back encoded, which the model does not show.  Also
  outside the model: user information and bracketed hosts in URLs; relative references other than
  those starting with a slash, which the script never produces
  (\<open>ghspa_reference_shape\<close>); traversal of the session history by the
  user, which runs no line of the script that a load does not run; the
  network, the router of the application and the markup of the two
  documents.  Lines 1 to
  20 of \<open>src/ghspa.js\<close> are a comment; every line of code, 21 to 62, is
  the subject of a definition, and every branch of it of a theorem: both
  values of the test of line 22, both documents of line 61, the three exits
  of \<open>resolve\<close>, and the exception of \<open>replaceState\<close>.  The
  built-ins of the language and \<open>window.location\<close> are modelled for the
  arguments the script gives them and the properties it reads, and no
  further; the browser and the host are not code of the repository.
\<close>

section \<open>The round trip of a request\<close>

text \<open>
  C1 (roundtrip).  The system delivers what the script is for.  A request
  for an address \<open>l\<close> that the host has no file for, on a host that serves
  the real document under the first segment of the path, ends with the real
  document in the tab and the address \<open>l\<close> in the address bar, after two
  loads and for every larger number of loads.  The first segment must be
  non-empty and free of \<open>&\<close>, and the rest of the path and the query
  \<open>amp_safe\<close>.
\<close>

theorem page_load_roundtrip:
  assumes "wf_location l"
    and "pathname l \<notin> set (documents st)"
    and "repo l (JBool True) @ ''/'' \<in> set (documents st)"
    and "real_title st \<noteq> ''404''"
    and "repo l (JBool True) \<noteq> ''/''"
    and "CHR ''&'' \<notin> set (repo l (JBool True))"
    and "amp_safe (drop (length (repo l (JBool True))) (pathname l))"
    and "amp_safe (drop 1 (search l))"
  shows "run (n + 2) st (Running l) = Settled l"
  by (rule run_more[OF run_two_loads[OF assms]])

theorem page_load_roundtrip_witness:
  "run 5 project_site (Running scenario) = Settled scenario"
  using page_load_roundtrip[of scenario project_site 3]
  by (simp add: wf_location_eval repo_def amp_safe_def gh_eval)

text \<open>
  C12 (functional).  On a project site the tab always comes to rest, and the
  development says where.  For every well-formed request with a non-empty
  first segment that the host has no file for, two loads end at the restored
  location: the prefix and the decoded \<open>p\<close> as the path, the decoded
  \<open>q\<close> as the query, the fragment of the request.  No such request is
  redirected twice, and none ends in an exception.
\<close>

theorem page_load_restored:
  assumes "wf_location l"
    and "pathname l \<notin> set (documents st)"
    and "repo l (JBool True) @ ''/'' \<in> set (documents st)"
    and "real_title st \<noteq> ''404''"
    and "repo l (JBool True) \<noteq> ''/''"
  shows "run (n + 2) st (Running l) = Settled (restored l (repo l (JBool True)))"
  by (rule run_more[OF run_two_loads_restored[OF assms]])

theorem page_load_restored_witness:
  "run 5 project_site (Running (scenario\<lparr>pathname := ''/my-repo/a~and~b''\<rparr>)) =
   Settled (scenario\<lparr>pathname := ''/my-repo/a&b''\<rparr>)"
  using page_load_restored[of "scenario\<lparr>pathname := ''/my-repo/a~and~b''\<rparr>" project_site 3]
  by (simp add: wf_location_eval repo_def gh_eval amp_encode_def amp_decode_def
      replace_all.simps)

text \<open>
  C11 (roundtrip).  The conditions are exact at the level of the system too.
  On a host that serves the real document under the first segment of the
  path, a request with a non-empty first segment ends at its own address if
  and only if that segment holds no \<open>&\<close> and the rest of the path and the
  query are \<open>amp_safe\<close>.  Otherwise the tab comes to rest at another
  address.
\<close>

theorem page_load_roundtrip_iff:
  assumes "wf_location l"
    and "pathname l \<notin> set (documents st)"
    and "repo l (JBool True) @ ''/'' \<in> set (documents st)"
    and "real_title st \<noteq> ''404''"
    and "repo l (JBool True) \<noteq> ''/''"
  shows "run (n + 2) st (Running l) = Settled l \<longleftrightarrow>
           CHR ''&'' \<notin> set (repo l (JBool True)) \<and>
           amp_safe (drop (length (repo l (JBool True))) (pathname l)) \<and>
           amp_safe (drop 1 (search l))"
proof -
  from assms(1) have route: "wf_route l" by (simp add: wf_location_def)
  from run_more[OF run_two_loads_restored[OF assms]]
  have "run (n + 2) st (Running l) = Settled (restored l (repo l (JBool True)))" .
  with restored_request_iff[OF route, of "JBool True"] show ?thesis
    by simp
qed

theorem page_load_roundtrip_iff_witness:
  "run 5 project_site (Running (scenario\<lparr>pathname := ''/my-repo/a~and~b''\<rparr>)) \<noteq>
   Settled (scenario\<lparr>pathname := ''/my-repo/a~and~b''\<rparr>)"
  using page_load_roundtrip_iff
    [of "scenario\<lparr>pathname := ''/my-repo/a~and~b''\<rparr>" project_site 3]
  by (simp add: wf_location_eval repo_def amp_safe_def gh_eval)

section \<open>A host without the landing document\<close>

text \<open>
  C10 (liveness).  When the host has a file neither for the requested path
  nor for the first segment of it followed by a slash, the tab never settles:
  after any number of loads the next document is the fallback document again,
  and the query has grown by at least three characters with every load.
  This is the case of every unknown path on a site that is served at the root
  of its domain, whatever the page sets \<open>window.projectPages\<close> to.
\<close>

theorem redirect_loop:
  assumes "wf_location l"
    and "pathname l \<notin> set (documents st)"
    and "repo l (JBool True) @ ''/'' \<notin> set (documents st)"
  shows "\<exists>l'. run n st (Running l) = Running l' \<and>
              length (search l) + 3 * n \<le> length (search l')"
  using stranded_run[of st l n] assms by (auto simp: stranded_def served_title_def)

theorem redirect_loop_witness:
  "\<exists>l'. run 4 user_site (Running about_request) = Running l' \<and> 12 \<le> length (search l')"
  using redirect_loop[of about_request user_site 4]
  by (simp add: wf_location_eval repo_def)

section \<open>A request that names another host\<close>

text \<open>
  A request for \<open>https://user.github.io//example.org/x\<close>.
\<close>

abbreviation slash_request :: location where
  "slash_request \<equiv>
     \<lparr>protocol = ''https:'', hostname = ''user.github.io'', port = [],
      pathname = ''//example.org/x'', search = [], hash = []\<rparr>"

text \<open>
  C21 (error).  A request whose path starts with two slashes ends in an
  exception.  The first segment is empty, the prefix is \<open>/\<close>, and the
  real document (served under \<open>//\<close>) passes the path of the request to
  \<open>replaceState\<close>.  The browser reads it as a reference to the host
  named after the two slashes; when this is not the origin of the page,
  \<open>replaceState\<close> throws a \<open>SecurityError\<close>, which the script does
  not catch, and the address is not restored.
\<close>

theorem network_path_rejected:
  assumes "wf_location l"
    and "prefix ''//'' (pathname l)"
    and "pathname l \<notin> set (documents st)"
    and "''//'' \<in> set (documents st)"
    and "real_title st \<noteq> ''404''"
    and "amp_safe (drop 1 (pathname l))"
    and "amp_safe (drop 1 (search l))"
    and "parse_url (protocol l @ pathname l @ search l @ hash l) = Some t"
    and "origin t \<noteq> origin l"
  shows "run (n + 2) st (Running l) = Failed SecurityError"
  by (rule run_more_Failed[OF run_two_loads_network_path[OF assms]])

theorem network_path_rejected_witness:
  "run 5 slash_site (Running slash_request) = Failed SecurityError"
  using network_path_rejected[of slash_request slash_site
      "slash_request\<lparr>hostname := ''example.org'', pathname := ''/x''\<rparr>" 3]
  by (simp add: wf_location_eval amp_safe_def gh_eval origin_def
      parse_url_def parse_route_def host_char_def route_char_def)

end
